theory Spec2Isabelle
  imports Main "HOL-Library.Sublist"
begin

section \<open>Python strings\<close>

text \<open>
  A Python \<open>str\<close> is modelled as a \<open>string\<close>; a \<open>char\<close> stands for the code point
  of the same number, so the model covers text over U+0000 .. U+00FF. The character
  classes below are Python's on that range. \<open>str.upper\<close> is modelled on ASCII letters;
  other characters are left as they are.
\<close>

definition py_isspace :: "char \<Rightarrow> bool" where
  \<comment> \<open>\<open>str.isspace\<close> on one character; also what \<open>str.strip()\<close> removes and what
      \<open>\s\<close> matches in a \<open>str\<close> pattern.\<close>
  "py_isspace c =
     (let n = (of_char c :: nat)
      in (9 \<le> n \<and> n \<le> 13) \<or> (28 \<le> n \<and> n \<le> 32) \<or> n = 133 \<or> n = 160)"

definition is_decimal :: "char \<Rightarrow> bool" where
  \<comment> \<open>the characters \<open>0\<close> .. \<open>9\<close>\<close>
  "is_decimal c = (let n = (of_char c :: nat) in 48 \<le> n \<and> n \<le> 57)"

definition digit_val :: "char \<Rightarrow> nat" where
  "digit_val c = of_char c - 48"

definition py_isdigit_chr :: "char \<Rightarrow> bool" where
  \<comment> \<open>\<open>str.isdigit\<close> on one character: the decimal digits and the superscripts
      U+00B2, U+00B3, U+00B9\<close>
  "py_isdigit_chr c =
     (let n = (of_char c :: nat) in is_decimal c \<or> n = 178 \<or> n = 179 \<or> n = 185)"

definition py_isdigit :: "string \<Rightarrow> bool" where
  \<comment> \<open>\<open>s.isdigit()\<close>: at least one character, and all of them digits\<close>
  "py_isdigit s = (s \<noteq> [] \<and> list_all py_isdigit_chr s)"

definition strip_with :: "(char \<Rightarrow> bool) \<Rightarrow> string \<Rightarrow> string" where
  \<comment> \<open>remove the characters of a class from both ends\<close>
  "strip_with p s = rev (dropWhile p (rev (dropWhile p s)))"

definition py_strip :: "string \<Rightarrow> string" where
  \<comment> \<open>\<open>s.strip()\<close>\<close>
  "py_strip s = strip_with py_isspace s"

definition py_strip_chars :: "string \<Rightarrow> string \<Rightarrow> string" where
  \<comment> \<open>\<open>s.strip(chars)\<close>\<close>
  "py_strip_chars chars s = strip_with (\<lambda>c. c \<in> set chars) s"

definition remove_chr :: "char \<Rightarrow> string \<Rightarrow> string" where
  \<comment> \<open>\<open>s.replace(c, '')\<close> for a single character \<open>c\<close>\<close>
  "remove_chr c s = filter (\<lambda>x. x \<noteq> c) s"

definition upper_chr :: "char \<Rightarrow> char" where
  "upper_chr c =
     (let n = (of_char c :: nat) in if 97 \<le> n \<and> n \<le> 122 then char_of (n - 32) else c)"

definition py_upper :: "string \<Rightarrow> string" where
  \<comment> \<open>\<open>s.upper()\<close>\<close>
  "py_upper s = map upper_chr s"

fun py_join :: "string \<Rightarrow> string list \<Rightarrow> string" where
  \<comment> \<open>\<open>sep.join(xs)\<close>\<close>
  "py_join sep [] = []"
| "py_join sep [x] = x"
| "py_join sep (x # y # ys) = x @ sep @ py_join sep (y # ys)"

fun str_nat :: "nat \<Rightarrow> string" where
  \<comment> \<open>the decimal numeral of a number, as an f-string prints it\<close>
  "str_nat n =
     (if n < 10 then [char_of (48 + n)] else str_nat (n div 10) @ [char_of (48 + n mod 10)])"

declare str_nat.simps [simp del]

definition py_or :: "string \<Rightarrow> string \<Rightarrow> string" where
  \<comment> \<open>\<open>a or b\<close> on strings: the first one unless it is empty\<close>
  "py_or a b = (if a \<noteq> [] then a else b)"


section \<open>Exceptions and the library\<close>

datatype exc = ValueError | OtherException

definition bind_exc :: "exc + 'a \<Rightarrow> ('a \<Rightarrow> exc + 'b) \<Rightarrow> exc + 'b" where
  \<comment> \<open>run the second computation unless the first one raised\<close>
  "bind_exc m f = (case m of Inl e \<Rightarrow> Inl e | Inr v \<Rightarrow> f v)"

text \<open>
  What the importers take from Python's library and do not define themselves:
  \<open>float(s)\<close> (\<open>None\<close> when it raises \<open>ValueError\<close>), the float \<open>0.0\<close>, and
  \<open>datetime.strptime(s, fmt).strftime('%Y-%m-%d')\<close>, which returns a string or raises.
\<close>

record 'f pylib =
  float_str :: "string \<Rightarrow> 'f option"
  float_zero :: 'f
  strptime_iso :: "string \<Rightarrow> string \<Rightarrow> exc + string"

subsection \<open>\<open>int(s)\<close> on a string\<close>

definition int_isspace :: "char \<Rightarrow> bool" where
  \<comment> \<open>the whitespace \<open>int\<close> skips around the numeral\<close>
  "int_isspace c =
     (let n = (of_char c :: nat) in (9 \<le> n \<and> n \<le> 13) \<or> n = 32 \<or> n = 133 \<or> n = 160)"

fun scan_digits :: "bool \<Rightarrow> nat \<Rightarrow> string \<Rightarrow> nat option" where
  \<comment> \<open>digits with single underscores between them; the flag says that the previous
      character was an underscore\<close>
  "scan_digits prev_us acc [] = (if prev_us then None else Some acc)"
| "scan_digits prev_us acc (c # cs) =
     (if c = CHR ''_'' then (if prev_us then None else scan_digits True acc cs)
      else if is_decimal c then scan_digits False (10 * acc + digit_val c) cs
      else None)"

definition py_int :: "string \<Rightarrow> int option" where
  \<comment> \<open>\<open>int(s)\<close>; \<open>None\<close> is \<open>ValueError\<close>\<close>
  "py_int s =
     (let t = strip_with int_isspace s;
          neg = (t \<noteq> [] \<and> hd t = CHR ''-'');
          u = (if t \<noteq> [] \<and> (hd t = CHR ''+'' \<or> hd t = CHR ''-'') then tl t else t)
      in if u = [] \<or> hd u = CHR ''_'' then None
         else case scan_digits False 0 u of
                None \<Rightarrow> None
              | Some v \<Rightarrow> Some (if neg then - int v else int v))"


definition strptime_stub :: "string \<Rightarrow> string \<Rightarrow> exc + string" where
  "strptime_stub s fmt = Inl ValueError"

definition stub_lib :: "int pylib" where
  \<comment> \<open>a library for tests, with integers for floats: \<open>float\<close> reads what \<open>int\<close>
      reads, and \<open>strptime\<close> raises \<open>ValueError\<close> on every input\<close>
  "stub_lib = \<lparr> float_str = py_int, float_zero = 0, strptime_iso = strptime_stub \<rparr>"


section \<open>Field parsers\<close>

type_synonym row = "string \<rightharpoonup> string"

definition row_get :: "row \<Rightarrow> string \<Rightarrow> string" where
  \<comment> \<open>\<open>row.get(key, '')\<close>\<close>
  "row_get r k = (case r k of None \<Rightarrow> [] | Some v \<Rightarrow> v)"

definition MIN_DATE :: int where
  "MIN_DATE = 20200101"

fun try_formats :: "'f pylib \<Rightarrow> string \<Rightarrow> string list \<Rightarrow> exc + string option" where
  \<comment> \<open>the loop over the formats in \<open>parse_date\<close>: a \<open>ValueError\<close> goes on to the next
      format, any other exception leaves the loop\<close>
  "try_formats L date_str [] = Inr None"
| "try_formats L date_str (fmt # fmts) =
     (case strptime_iso L (take 10 date_str) fmt of
        Inr d \<Rightarrow> Inr (Some d)
      | Inl ValueError \<Rightarrow> try_formats L date_str fmts
      | Inl OtherException \<Rightarrow> Inl OtherException)"

definition parse_date_try :: "'f pylib \<Rightarrow> string \<Rightarrow> exc + string option" where
  \<comment> \<open>the body of the outer \<open>try\<close> of \<open>parse_date\<close>\<close>
  "parse_date_try L date_str =
     (if length date_str = 8 \<and> py_isdigit date_str
      then Inr (Some (take 4 date_str @ ''-'' @ take 2 (drop 4 date_str) @ ''-''
                      @ take 2 (drop 6 date_str)))
      else try_formats L date_str [''%Y%m%d'', ''%m/%d/%Y'', ''%Y-%m-%d''])"

definition parse_date :: "'f pylib \<Rightarrow> string \<Rightarrow> exc + string option" where
  \<comment> \<open>\<open>parse_date\<close>, the same in the three importers that have it; \<open>Inl\<close> would be
      an exception that leaves the function\<close>
  "parse_date L date_str =
     (if date_str = [] \<or> length date_str < 8 then Inr None
      else case parse_date_try L date_str of
             Inr r \<Rightarrow> Inr r
           | Inl e \<Rightarrow> Inr None)"

definition parse_amount :: "'f pylib \<Rightarrow> string \<Rightarrow> 'f" where
  \<comment> \<open>\<open>parse_amount\<close> of the contribution and expenditure importers\<close>
  "parse_amount L amount_str =
     (if amount_str = [] then float_zero L
      else let clean = py_strip (remove_chr CHR ''$'' (remove_chr CHR '','' amount_str))
           in if clean \<noteq> []
              then (case float_str L clean of Some v \<Rightarrow> v | None \<Rightarrow> float_zero L)
              else float_zero L)"

definition parse_amount_report :: "'f pylib \<Rightarrow> string \<Rightarrow> 'f option" where
  \<comment> \<open>\<open>parse_amount\<close> of the report importer\<close>
  "parse_amount_report L amount_str =
     (if amount_str = [] then None
      else let clean = py_strip (remove_chr CHR ''$'' (remove_chr CHR '','' amount_str))
           in if clean \<noteq> [] then float_str L clean else None)"

definition build_name :: "string \<Rightarrow> string \<Rightarrow> string \<Rightarrow> string \<Rightarrow> string" where
  \<comment> \<open>the common body of \<open>build_contributor_name\<close> and \<open>build_payee_name\<close>, on the
      four raw fields\<close>
  "build_name org_raw last_raw first_raw suffix_raw =
     (let org = py_strip org_raw
      in if org \<noteq> [] then org
         else let last = py_strip last_raw;
                  first = py_strip first_raw;
                  suffix = py_strip suffix_raw
              in if last \<noteq> [] \<and> first \<noteq> []
                 then (let name = last @ '', '' @ first
                       in if suffix \<noteq> [] then name @ '' '' @ suffix else name)
                 else if last \<noteq> [] then last
                 else if first \<noteq> [] then first
                 else ''Unknown'')"

definition build_contributor_name :: "row \<Rightarrow> string" where
  "build_contributor_name r =
     build_name (row_get r ''contributorNameOrganization'') (row_get r ''contributorNameLast'')
       (row_get r ''contributorNameFirst'') (row_get r ''contributorNameSuffixCd'')"

definition build_payee_name :: "row \<Rightarrow> string" where
  "build_payee_name r =
     build_name (row_get r ''payeeNameOrganization'') (row_get r ''payeeNameLast'')
       (row_get r ''payeeNameFirst'') (row_get r ''payeeNameSuffixCd'')"


section \<open>The date filter\<close>

definition date_filter_skips :: "string \<Rightarrow> bool" where
  \<comment> \<open>the first statements of \<open>parse_contribution_row\<close>, \<open>parse_expenditure_row\<close> and
      \<open>parse_report_row\<close>, on the raw \<open>receivedDt\<close>: true when they return \<open>None\<close>\<close>
  "date_filter_skips received_date_raw =
     (if received_date_raw \<noteq> []
      then (case (if length received_date_raw \<ge> 8 then py_int (take 8 received_date_raw)
                  else Some 0) of
              Some date_int \<Rightarrow> date_int < MIN_DATE
            | None \<Rightarrow> False)
      else False)"


section \<open>Record normalizers\<close>

record 'f contribution =
  c_id :: string
  c_filer_id :: string
  c_filer_name :: string
  c_contributor_name :: string
  c_contributor_type :: string
  c_contributor_city :: string
  c_contributor_state :: string
  c_contributor_employer :: string
  c_contributor_occupation :: string
  c_amount :: 'f
  c_date :: "string option"
  c_description :: string
  c_report_id :: string
  c_received_date :: "string option"

record 'f expenditure =
  e_id :: string
  e_filer_id :: string
  e_filer_name :: string
  e_payee_name :: string
  e_payee_city :: string
  e_payee_state :: string
  e_amount :: 'f
  e_date :: "string option"
  e_category :: string
  e_description :: string
  e_report_id :: string
  e_received_date :: "string option"

record 'f report =
  r_id :: string
  r_filer_id :: string
  r_filer_name :: string
  r_report_type :: "string option"
  r_period_start :: "string option"
  r_period_end :: "string option"
  r_filed_date :: "string option"
  r_received_date :: "string option"
  r_total_contributions :: "'f option"
  r_total_expenditures :: "'f option"
  r_cash_on_hand :: "'f option"

record filer =
  f_id :: string
  f_name :: string
  f_type :: string
  f_party :: "string option"
  f_office_held :: string
  f_office_district :: string
  f_office_county :: string
  f_status :: string
  f_city :: string
  f_state :: string

definition parse_contribution_row :: "'f pylib \<Rightarrow> row \<Rightarrow> exc + 'f contribution option" where
  "parse_contribution_row L r =
     (let received_date_raw = row_get r ''receivedDt''
      in if date_filter_skips received_date_raw then Inr None
         else let contribution_id = row_get r ''contributionInfoId''
              in if contribution_id = [] then Inr None
                 else bind_exc (parse_date L (row_get r ''contributionDt'')) (\<lambda>d.
                      bind_exc (parse_date L received_date_raw) (\<lambda>rd.
                      Inr (Some \<lparr>
                        c_id = contribution_id,
                        c_filer_id = row_get r ''filerIdent'',
                        c_filer_name = row_get r ''filerName'',
                        c_contributor_name = build_contributor_name r,
                        c_contributor_type = row_get r ''contributorPersentTypeCd'',
                        c_contributor_city = row_get r ''contributorStreetCity'',
                        c_contributor_state = row_get r ''contributorStreetStateCd'',
                        c_contributor_employer = row_get r ''contributorEmployer'',
                        c_contributor_occupation = row_get r ''contributorOccupation'',
                        c_amount = parse_amount L (row_get r ''contributionAmount''),
                        c_date = d,
                        c_description = row_get r ''contributionDescr'',
                        c_report_id = row_get r ''reportInfoIdent'',
                        c_received_date = rd \<rparr>))))"

definition parse_expenditure_row :: "'f pylib \<Rightarrow> row \<Rightarrow> exc + 'f expenditure option" where
  "parse_expenditure_row L r =
     (let received_date_raw = row_get r ''receivedDt''
      in if date_filter_skips received_date_raw then Inr None
         else let expend_id = row_get r ''expendInfoId''
              in if expend_id = [] then Inr None
                 else bind_exc (parse_date L (row_get r ''expendDt'')) (\<lambda>d.
                      bind_exc (parse_date L received_date_raw) (\<lambda>rd.
                      Inr (Some \<lparr>
                        e_id = expend_id,
                        e_filer_id = row_get r ''filerIdent'',
                        e_filer_name = row_get r ''filerName'',
                        e_payee_name = build_payee_name r,
                        e_payee_city = row_get r ''payeeStreetCity'',
                        e_payee_state = row_get r ''payeeStreetStateCd'',
                        e_amount = parse_amount L (row_get r ''expendAmount''),
                        e_date = d,
                        e_category = py_or (row_get r ''expendCatCd'') (row_get r ''expendCatDescr''),
                        e_description = row_get r ''expendDescr'',
                        e_report_id = row_get r ''reportInfoIdent'',
                        e_received_date = rd \<rparr>))))"

definition report_type_values :: "row \<Rightarrow> string list" where
  \<comment> \<open>the list \<open>report_types\<close> that the loop over \<open>range(1, 11)\<close> builds\<close>
  "report_type_values r =
     filter (\<lambda>rt. rt \<noteq> [])
       (map (\<lambda>i. py_strip (row_get r (''reportTypeCd'' @ str_nat i))) [1..<11])"

definition report_type_of :: "row \<Rightarrow> string option" where
  "report_type_of r =
     (let report_types = report_type_values r
      in if report_types \<noteq> [] then Some (py_join '', '' report_types) else None)"

definition report_type_spec :: "row \<Rightarrow> string option" where
  \<comment> \<open>the report type as the specification words it: every non-empty value of the
      columns 1 to 10, in column order, joined with a comma and a space\<close>
  "report_type_spec r =
     (let vs = filter (\<lambda>v. v \<noteq> []) (map (\<lambda>i. row_get r (''reportTypeCd'' @ str_nat i)) [1..<11])
      in if vs \<noteq> [] then Some (py_join '', '' vs) else None)"

definition parse_report_row :: "'f pylib \<Rightarrow> row \<Rightarrow> exc + 'f report option" where
  "parse_report_row L r =
     (let received_date_raw = row_get r ''receivedDt''
      in if date_filter_skips received_date_raw then Inr None
         else let report_id = row_get r ''reportInfoIdent''
              in if report_id = [] then Inr None
                 else bind_exc (parse_date L (row_get r ''periodStartDt'')) (\<lambda>ps.
                      bind_exc (parse_date L (row_get r ''periodEndDt'')) (\<lambda>pe.
                      bind_exc (parse_date L (row_get r ''filedDt'')) (\<lambda>fd.
                      bind_exc (parse_date L received_date_raw) (\<lambda>rd.
                      Inr (Some \<lparr>
                        r_id = report_id,
                        r_filer_id = row_get r ''filerIdent'',
                        r_filer_name = row_get r ''filerName'',
                        r_report_type = report_type_of r,
                        r_period_start = ps,
                        r_period_end = pe,
                        r_filed_date = fd,
                        r_received_date = rd,
                        r_total_contributions = parse_amount_report L (row_get r ''totalContribAmount''),
                        r_total_expenditures = parse_amount_report L (row_get r ''totalExpendAmount''),
                        r_cash_on_hand =
                          parse_amount_report L (row_get r ''contribsMaintainedAmount'') \<rparr>))))))"

definition filer_name_of :: "row \<Rightarrow> string" where
  \<comment> \<open>the variable \<open>name\<close> of \<open>parse_filer_row\<close>\<close>
  "filer_name_of r =
     (let name = row_get r ''filerName''
      in if name = []
         then (let first = row_get r ''filerNameFirst'';
                   last = row_get r ''filerNameLast'';
                   suffix = row_get r ''filerNameSuffixCd''
               in if first \<noteq> [] \<or> last \<noteq> []
                  then (let name = py_strip_chars '', '' (last @ '', '' @ first)
                        in if suffix \<noteq> [] then name @ '' '' @ suffix else name)
                  else name)
         else name)"

definition parse_filer_row :: "row \<Rightarrow> filer" where
  "parse_filer_row r =
     \<lparr> f_id = row_get r ''filerIdent'',
       f_name = filer_name_of r,
       f_type = row_get r ''filerTypeCd'',
       f_party = None,
       f_office_held = py_or (row_get r ''filerHoldOfficeCd'') (row_get r ''ctaSeekOfficeCd''),
       f_office_district =
         py_or (row_get r ''filerHoldOfficeDistrict'') (row_get r ''ctaSeekOfficeDistrict''),
       f_office_county =
         py_or (row_get r ''filerHoldOfficeCountyDescr'') (row_get r ''ctaSeekOfficeCountyDescr''),
       f_status = py_or (row_get r ''filerFilerpersStatusCd'') (row_get r ''committeeStatusCd''),
       f_city = row_get r ''filerStreetCity'',
       f_state = row_get r ''filerStreetStateCd'' \<rparr>"


section \<open>Reading a source file\<close>

fun parse_rows :: "(row \<Rightarrow> exc + 'r option) \<Rightarrow> 'r list \<Rightarrow> nat \<Rightarrow> row list \<Rightarrow> exc + ('r list \<times> nat)" where
  \<comment> \<open>the loop over the reader in the contribution, expenditure and report importers:
      the records so far, the rows skipped so far, the rows to come\<close>
  "parse_rows parse acc skipped [] = Inr (acc, skipped)"
| "parse_rows parse acc skipped (r # rs) =
     (case parse r of
        Inl e \<Rightarrow> Inl e
      | Inr None \<Rightarrow> parse_rows parse acc (skipped + 1) rs
      | Inr (Some x) \<Rightarrow> parse_rows parse (acc @ [x]) skipped rs)"

fun filer_step :: "filer list \<times> string set \<Rightarrow> row \<Rightarrow> filer list \<times> string set" where
  \<comment> \<open>one turn of the loop over the reader in \<open>import_filers\<close>, on \<open>filers\<close> and
      \<open>seen_ids\<close>\<close>
  "filer_step (filers, seen_ids) r =
     (let filer_id = row_get r ''filerIdent''
      in if filer_id = [] \<or> filer_id \<in> seen_ids then (filers, seen_ids)
         else let seen_ids' = insert filer_id seen_ids;
                  filer = parse_filer_row r
              in if f_name filer = [] then (filers, seen_ids')
                 else (filers @ [filer], seen_ids'))"

definition read_filers :: "row list \<Rightarrow> filer list" where
  \<comment> \<open>the list \<open>filers\<close> when the reader of \<open>import_filers\<close> is exhausted\<close>
  "read_filers rs = fst (foldl filer_step ([], {}) rs)"


section \<open>The batch loader\<close>

text \<open>
  The store is reached through one operation: an upsert of a list of records changes the
  store and succeeds, or raises (\<open>False\<close>). The slices \<open>xs[i:i + n]\<close> for
  \<open>i\<close> in \<open>range(0, len(xs), n)\<close> are \<open>chunks n xs\<close>; the importers' sizes are
  positive constants (\<open>range\<close> raises on a step of 0, where \<open>chunks\<close> is empty).
\<close>

type_synonym ('s, 'r) upsert = "'s \<Rightarrow> 'r list \<Rightarrow> bool \<times> 's"

function chunks :: "nat \<Rightarrow> 'a list \<Rightarrow> 'a list list" where
  "chunks n xs = (if n = 0 \<or> xs = [] then [] else take n xs # chunks n (drop n xs))"
  by pat_completeness auto
termination
  by (relation "measure (\<lambda>(n, xs). length xs)") auto

declare chunks.simps [simp del]

fun insert_mini_batch :: "('s, 'r) upsert \<Rightarrow> 's \<times> nat \<Rightarrow> 'r list \<Rightarrow> 's \<times> nat" where
  \<comment> \<open>the inner \<open>try\<close>: one sub-batch, on the store and \<open>total_imported\<close>\<close>
  "insert_mini_batch upsert (st, total_imported) mini_batch =
     (let (ok, st') = upsert st mini_batch
      in if ok then (st', total_imported + length mini_batch) else (st', total_imported))"

fun insert_batch :: "('s, 'r) upsert \<Rightarrow> nat \<Rightarrow> 's \<times> nat \<Rightarrow> 'r list \<Rightarrow> 's \<times> nat" where
  \<comment> \<open>the outer \<open>try\<close>: one batch, and its sub-batches when the upsert raises\<close>
  "insert_batch upsert mini_size (st, total_imported) batch =
     (let (ok, st') = upsert st batch
      in if ok then (st', total_imported + length batch)
         else foldl (insert_mini_batch upsert) (st', total_imported) (chunks mini_size batch))"

declare insert_mini_batch.simps [simp del] insert_batch.simps [simp del]

definition insert_batches ::
  "('s, 'r) upsert \<Rightarrow> nat \<Rightarrow> nat \<Rightarrow> 's \<times> nat \<Rightarrow> 'r list \<Rightarrow> 's \<times> nat" where
  \<comment> \<open>the loop \<open>for i in range(0, len(records), batch_size)\<close>\<close>
  "insert_batches upsert batch_size mini_size s records =
     foldl (insert_batch upsert mini_size) s (chunks batch_size records)"

definition BATCH_SIZE :: nat where
  "BATCH_SIZE = 1000"

definition MINI_BATCH_SIZE :: nat where
  \<comment> \<open>the literal 100 of the inner loop\<close>
  "MINI_BATCH_SIZE = 100"

fun for_files ::
  "('a \<Rightarrow> row list \<Rightarrow> exc + 'a) \<Rightarrow> 'a \<Rightarrow> row list list \<Rightarrow> exc + 'a" where
  \<comment> \<open>the loop over the source files, each one the list of its rows\<close>
  "for_files body s [] = Inr s"
| "for_files body s (f # fs) = bind_exc (body s f) (\<lambda>s'. for_files body s' fs)"

fun import_file ::
  "(row \<Rightarrow> exc + 'r option) \<Rightarrow> ('s, 'r) upsert \<Rightarrow> 's \<times> nat \<times> nat \<Rightarrow> row list
     \<Rightarrow> exc + ('s \<times> nat \<times> nat)" where
  \<comment> \<open>one source file, on the store, \<open>total_imported\<close> and \<open>total_skipped\<close>\<close>
  "import_file parse upsert (st, total_imported, total_skipped) rs =
     bind_exc (parse_rows parse [] 0 rs) (\<lambda>(records, file_skipped).
       let (st', total_imported') =
             insert_batches upsert BATCH_SIZE MINI_BATCH_SIZE (st, total_imported) records
       in Inr (st', total_imported', total_skipped + file_skipped))"

definition import_contributions ::
  "'f pylib \<Rightarrow> ('s, 'f contribution) upsert \<Rightarrow> 's \<Rightarrow> row list list \<Rightarrow> exc + ('s \<times> nat \<times> nat)" where
  "import_contributions L upsert st files =
     for_files (import_file (parse_contribution_row L) upsert) (st, 0, 0) files"

definition import_expenditures ::
  "'f pylib \<Rightarrow> ('s, 'f expenditure) upsert \<Rightarrow> 's \<Rightarrow> row list list \<Rightarrow> exc + ('s \<times> nat \<times> nat)" where
  "import_expenditures L upsert st files =
     for_files (import_file (parse_expenditure_row L) upsert) (st, 0, 0) files"

definition stub_upsert :: "('r list \<Rightarrow> bool) \<Rightarrow> ('r list list, 'r) upsert" where
  \<comment> \<open>a store for tests: it records every call and accepts the batches that satisfy
      \<open>accepts\<close>\<close>
  "stub_upsert accepts calls batch = (accepts batch, calls @ [batch])"

definition at_most_two :: "'r list \<Rightarrow> bool" where
  \<comment> \<open>what a store accepts that fails on every batch of more than two records\<close>
  "at_most_two batch = (length batch \<le> 2)"


section \<open>City names\<close>

function collapse_ws :: "string \<Rightarrow> string" where
  \<comment> \<open>\<open>re.sub(r'\s+', ' ', n)\<close>\<close>
  "collapse_ws [] = []"
| "collapse_ws (c # cs) =
     (if py_isspace c then CHR '' '' # collapse_ws (dropWhile py_isspace cs)
      else c # collapse_ws cs)"
  by pat_completeness auto
termination
  by (relation "measure length") (auto simp: length_dropWhile_le less_Suc_eq_le)

definition sub_leading :: "string \<Rightarrow> string \<Rightarrow> string \<Rightarrow> string" where
  \<comment> \<open>\<open>re.sub('^' + tok + r'\.?\s+', repl, n)\<close>: the pattern can match at the start
      only, the token, then a dot or none, then all the whitespace that follows\<close>
  "sub_leading tok repl n =
     (if prefix tok n
      then (let r = drop (length tok) n;
                r' = (if r \<noteq> [] \<and> hd r = CHR ''.'' then tl r else r)
            in if r' \<noteq> [] \<and> py_isspace (hd r') then repl @ dropWhile py_isspace r' else n)
      else n)"

definition at_dollar :: "(string \<Rightarrow> string) \<Rightarrow> string \<Rightarrow> string" where
  \<comment> \<open>a substitution whose pattern ends in \<open>$\<close> and in a letter: \<open>$\<close> is the end of
      the string, or the place before a newline that ends the string\<close>
  "at_dollar f n = (if n \<noteq> [] \<and> last n = CHR 0x0A then f (butlast n) @ [CHR 0x0A] else f n)"

definition cut_comma_ws :: "string \<Rightarrow> string" where
  \<comment> \<open>on a reversed string: drop the whitespace, then one comma if there is one\<close>
  "cut_comma_ws r =
     (let r1 = dropWhile py_isspace r
      in if r1 \<noteq> [] \<and> hd r1 = CHR '','' then tl r1 else r1)"

definition strip_state :: "string \<Rightarrow> string" where
  \<comment> \<open>\<open>re.sub(r',?\s*(TX|TEXAS)', '', n, flags=re.I)\<close> with the match ending where
      \<open>n\<close> ends: the leftmost match takes the token, the whitespace before it and a
      comma before that\<close>
  "strip_state n =
     (let r = rev n; u = map upper_chr r
      in if prefix ''XT'' u then rev (cut_comma_ws (drop 2 r))
         else if prefix ''SAXET'' u then rev (cut_comma_ws (drop 5 r))
         else n)"

definition strip_tx_usa :: "string \<Rightarrow> string" where
  \<comment> \<open>\<open>re.sub(r'\s+TX\s+USA', '', n, flags=re.I)\<close> with the match ending where
      \<open>n\<close> ends\<close>
  "strip_tx_usa n =
     (let r = rev n
      in if prefix ''ASU'' (map upper_chr r)
         then (let r1 = drop 3 r; r2 = dropWhile py_isspace r1
               in if r1 \<noteq> [] \<and> py_isspace (hd r1) \<and> prefix ''XT'' (map upper_chr r2)
                  then (let r3 = drop 2 r2
                        in if r3 \<noteq> [] \<and> py_isspace (hd r3)
                           then rev (dropWhile py_isspace r3) else n)
                  else n)
         else n)"

definition normalize_city :: "string \<Rightarrow> string" where
  "normalize_city city_name =
     (if city_name = [] then []
      else let n = py_strip (py_upper city_name);
               n = collapse_ws n;
               n = sub_leading ''FT'' ''FORT '' n;
               n = sub_leading ''ST'' ''SAINT '' n;
               n = at_dollar strip_state n;
               n = at_dollar strip_tx_usa n
           in py_strip n)"

definition plain_word :: "string \<Rightarrow> bool" where
  \<comment> \<open>a word of capital letters that is no token of the patterns of \<open>normalize_city\<close>
      and does not end as one does; the properties of \<open>normalize_city\<close> are stated on
      the text around such a word\<close>
  "plain_word w =
     (w \<noteq> [] \<and> list_all (\<lambda>c. c \<in> set ''ABCDEFGHIJKLMNOPQRSTUVWXYZ'') w
      \<and> last w \<notin> set ''XSA'' \<and> w \<noteq> ''FT'' \<and> w \<noteq> ''ST'')"


section \<open>Properties of the field parsers\<close>

lemma parse_date_returns: "\<exists>r. parse_date L s = Inr r"
  by (simp add: parse_date_def split: sum.split)

lemma is_decimal_isdigit: "is_decimal c \<Longrightarrow> py_isdigit_chr c"
  by (simp add: py_isdigit_chr_def)

text \<open>
  C4. A date of eight ASCII digits is regrouped as \<open>YYYY-MM-DD\<close> with the same digits; a
  string of fewer than eight characters, the empty one among them, gives no date; and
  \<open>parse_date\<close> returns on every string, whatever the library's \<open>strptime\<close> does,
  raising included.
\<close>

theorem parse_date_contract:
  "(list_all is_decimal [a, b, c, d, e, f, g, h] \<longrightarrow>
      parse_date L [a, b, c, d, e, f, g, h]
        = Inr (Some [a, b, c, d, CHR ''-'', e, f, CHR ''-'', g, h]))
   \<and> (length s < 8 \<longrightarrow> parse_date L s = Inr None)
   \<and> (\<forall>t. \<exists>r. parse_date L t = Inr r)
   \<and> parse_date L ''20230615'' = Inr (Some ''2023-06-15'')"
proof -
  have regroup: "parse_date L [a, b, c, d, e, f, g, h]
        = Inr (Some [a, b, c, d, CHR ''-'', e, f, CHR ''-'', g, h])"
    if "list_all is_decimal [a, b, c, d, e, f, g, h]" for a b c d e f g h
    using that by (simp add: parse_date_def parse_date_try_def py_isdigit_def is_decimal_isdigit)
  have short: "parse_date L s = Inr None" if "length s < 8"
    using that by (simp add: parse_date_def)
  have ex: "parse_date L ''20230615'' = Inr (Some ''2023-06-15'')"
    by (rule regroup) (simp add: is_decimal_def)
  show ?thesis
    using regroup short ex parse_date_returns by blast
qed

theorem parse_date_contract_witness:
  "list_all is_decimal ''20191231''
   \<and> parse_date stub_lib ''20191231'' = Inr (Some ''2019-12-31'')
   \<and> length ''6/15/23'' < 8
   \<and> parse_date stub_lib ''6/15/23'' = Inr None"
proof -
  have dec: "list_all is_decimal ''20191231''" by (simp add: is_decimal_def)
  have len: "length ''6/15/23'' < 8" by simp
  note c = parse_date_contract [of "CHR ''2''" "CHR ''0''" "CHR ''1''" "CHR ''9''" "CHR ''1''"
      "CHR ''2''" "CHR ''3''" "CHR ''1''" stub_lib "''6/15/23''"]
  with dec len show ?thesis by simp
qed


section \<open>Properties of the date filter and the row parsers\<close>

lemma scan_digits_bound:
  "scan_digits u acc cs = Some v \<Longrightarrow> v < (acc + 1) * 10 ^ length cs"
proof (induction cs arbitrary: u acc)
  case Nil
  then show ?case by (simp split: if_splits)
next
  case (Cons c cs)
  show ?case
  proof (cases "c = CHR ''_''")
    case True
    with Cons.prems have "scan_digits True acc cs = Some v"
      by (simp split: if_splits)
    then have "v < (acc + 1) * 10 ^ length cs" by (rule Cons.IH)
    also have "\<dots> \<le> (acc + 1) * 10 ^ length (c # cs)" by simp
    finally show ?thesis .
  next
    case False
    with Cons.prems have dec: "is_decimal c"
      and rest: "scan_digits False (10 * acc + digit_val c) cs = Some v"
      by (simp_all split: if_splits)
    from dec have "digit_val c \<le> 9"
      unfolding is_decimal_def digit_val_def Let_def by linarith
    then have "10 * acc + digit_val c + 1 \<le> 10 * (acc + 1)" by simp
    then have "(10 * acc + digit_val c + 1) * 10 ^ length cs \<le> 10 * (acc + 1) * 10 ^ length cs"
      by (rule mult_le_mono1)
    moreover from rest have "v < (10 * acc + digit_val c + 1) * 10 ^ length cs"
      by (rule Cons.IH)
    ultimately have "v < 10 * (acc + 1) * 10 ^ length cs" by linarith
    also have "\<dots> = (acc + 1) * 10 ^ length (c # cs)" by (simp add: algebra_simps)
    finally show ?thesis .
  qed
qed

lemma length_strip_with: "length (strip_with p s) \<le> length s"
proof -
  have "length (dropWhile p (rev (dropWhile p s))) \<le> length (rev (dropWhile p s))"
    by (rule length_dropWhile_le)
  also have "\<dots> \<le> length s" by (simp add: length_dropWhile_le)
  finally show ?thesis by (simp add: strip_with_def)
qed

lemma py_int_bound:
  assumes "py_int s = Some n"
  shows "n < 10 ^ length s"
proof -
  define t where "t = strip_with int_isspace s"
  define u where "u = (if t \<noteq> [] \<and> (hd t = CHR ''+'' \<or> hd t = CHR ''-'') then tl t else t)"
  from assms obtain v where v: "scan_digits False 0 u = Some v" and n: "n \<le> int v"
    by (auto simp: py_int_def Let_def t_def u_def split: if_splits option.splits)
  have "length u \<le> length t" by (simp add: u_def)
  also have "\<dots> \<le> length s" unfolding t_def by (rule length_strip_with)
  finally have len: "length u \<le> length s" .
  from v have "v < 10 ^ length u" using scan_digits_bound [of False 0 u v] by simp
  also have "\<dots> \<le> 10 ^ length s" using len by (simp add: power_increasing)
  finally have "int v < 10 ^ length s" by (metis of_nat_less_iff of_nat_numeral of_nat_power)
  with n show ?thesis by linarith
qed

lemma date_filter_short:
  "raw \<noteq> [] \<Longrightarrow> length raw < 8 \<Longrightarrow> date_filter_skips raw"
  by (simp add: date_filter_skips_def MIN_DATE_def)

lemma date_filter_long:
  "8 \<le> length raw \<Longrightarrow>
   date_filter_skips raw = (case py_int (take 8 raw) of Some n \<Rightarrow> n < MIN_DATE | None \<Rightarrow> False)"
  by (auto simp add: date_filter_skips_def)

lemma py_int_short_below_cutoff:
  assumes "py_int s = Some n" and "length s < 8"
  shows "n < MIN_DATE"
proof -
  from assms(2) have "length s \<le> 7" by simp
  then have "(10::int) ^ length s \<le> 10 ^ 7" by (rule power_increasing) simp
  with py_int_bound [OF assms(1)] show ?thesis by (simp add: MIN_DATE_def)
qed

lemma py_int_empty: "py_int [] = None"
  by (simp add: py_int_def strip_with_def)

lemma parse_contribution_row_None_iff:
  "parse_contribution_row L r = Inr None \<longleftrightarrow>
     date_filter_skips (row_get r ''receivedDt'') \<or> row_get r ''contributionInfoId'' = []"
proof -
  obtain d where d: "parse_date L (row_get r ''contributionDt'') = Inr d"
    using parse_date_returns by blast
  obtain rd where rd: "parse_date L (row_get r ''receivedDt'') = Inr rd"
    using parse_date_returns by blast
  show ?thesis
    by (simp add: parse_contribution_row_def Let_def bind_exc_def d rd)
qed

lemma parse_contribution_row_returns: "\<exists>v. parse_contribution_row L r = Inr v"
proof -
  obtain d where d: "parse_date L (row_get r ''contributionDt'') = Inr d"
    using parse_date_returns by blast
  obtain rd where rd: "parse_date L (row_get r ''receivedDt'') = Inr rd"
    using parse_date_returns by blast
  show ?thesis
    by (simp add: parse_contribution_row_def Let_def bind_exc_def d rd)
qed

lemma parse_expenditure_row_None_iff:
  "parse_expenditure_row L r = Inr None \<longleftrightarrow>
     date_filter_skips (row_get r ''receivedDt'') \<or> row_get r ''expendInfoId'' = []"
proof -
  obtain d where d: "parse_date L (row_get r ''expendDt'') = Inr d"
    using parse_date_returns by blast
  obtain rd where rd: "parse_date L (row_get r ''receivedDt'') = Inr rd"
    using parse_date_returns by blast
  show ?thesis
    by (simp add: parse_expenditure_row_def Let_def bind_exc_def d rd)
qed

lemma parse_expenditure_row_returns: "\<exists>v. parse_expenditure_row L r = Inr v"
proof -
  obtain d where d: "parse_date L (row_get r ''expendDt'') = Inr d"
    using parse_date_returns by blast
  obtain rd where rd: "parse_date L (row_get r ''receivedDt'') = Inr rd"
    using parse_date_returns by blast
  show ?thesis
    by (simp add: parse_expenditure_row_def Let_def bind_exc_def d rd)
qed

lemma parse_report_row_cases:
  "\<exists>ps pe fd rd.
     parse_date L (row_get r ''periodStartDt'') = Inr ps \<and>
     parse_date L (row_get r ''periodEndDt'') = Inr pe \<and>
     parse_date L (row_get r ''filedDt'') = Inr fd \<and>
     parse_date L (row_get r ''receivedDt'') = Inr rd"
proof -
  obtain ps where "parse_date L (row_get r ''periodStartDt'') = Inr ps"
    using parse_date_returns by blast
  moreover obtain pe where "parse_date L (row_get r ''periodEndDt'') = Inr pe"
    using parse_date_returns by blast
  moreover obtain fd where "parse_date L (row_get r ''filedDt'') = Inr fd"
    using parse_date_returns by blast
  moreover obtain rd where "parse_date L (row_get r ''receivedDt'') = Inr rd"
    using parse_date_returns by blast
  ultimately show ?thesis by blast
qed

lemma parse_report_row_None_iff:
  "parse_report_row L r = Inr None \<longleftrightarrow>
     date_filter_skips (row_get r ''receivedDt'') \<or> row_get r ''reportInfoIdent'' = []"
proof -
  from parse_report_row_cases [of L r] obtain ps pe fd rd where
    "parse_date L (row_get r ''periodStartDt'') = Inr ps"
    "parse_date L (row_get r ''periodEndDt'') = Inr pe"
    "parse_date L (row_get r ''filedDt'') = Inr fd"
    "parse_date L (row_get r ''receivedDt'') = Inr rd" by blast
  then show ?thesis
    by (simp add: parse_report_row_def Let_def bind_exc_def)
qed

lemma parse_report_row_returns: "\<exists>v. parse_report_row L r = Inr v"
proof -
  from parse_report_row_cases [of L r] obtain ps pe fd rd where
    "parse_date L (row_get r ''periodStartDt'') = Inr ps"
    "parse_date L (row_get r ''periodEndDt'') = Inr pe"
    "parse_date L (row_get r ''filedDt'') = Inr fd"
    "parse_date L (row_get r ''receivedDt'') = Inr rd" by blast
  then show ?thesis
    by (simp add: parse_report_row_def Let_def bind_exc_def)
qed

text \<open>
  C5. A received date whose first eight characters \<open>int\<close> reads as a number of at least
  20200101 passes the date filter, whatever follows them; one that reads as a smaller
  number is skipped; the empty received date passes. So every string that starts with
  \<open>20200101\<close> passes and every string that starts with \<open>20191231\<close> is skipped. A
  skipped contribution row gives no record, and a row that passes with an identifier
  gives one.
\<close>

theorem date_filter_cutoff:
  "(py_int (take 8 raw) = Some n \<and> MIN_DATE \<le> n \<longrightarrow> \<not> date_filter_skips raw)
   \<and> (py_int (take 8 raw) = Some n \<and> n < MIN_DATE \<longrightarrow> date_filter_skips raw)
   \<and> \<not> date_filter_skips []
   \<and> \<not> date_filter_skips (''20200101'' @ rest)
   \<and> date_filter_skips (''20191231'' @ rest)
   \<and> MIN_DATE = 20200101
   \<and> (date_filter_skips (row_get r ''receivedDt'') \<longrightarrow> parse_contribution_row L r = Inr None)
   \<and> (\<not> date_filter_skips (row_get r ''receivedDt'') \<and> row_get r ''contributionInfoId'' \<noteq> []
        \<longrightarrow> (\<exists>c. parse_contribution_row L r = Inr (Some c)))"
proof -
  have pass: "\<not> date_filter_skips raw" if p: "py_int (take 8 raw) = Some n" and ge: "MIN_DATE \<le> n"
  proof (cases "8 \<le> length raw")
    case True
    with p ge show ?thesis by (simp add: date_filter_long)
  next
    case False
    then have "length (take 8 raw) < 8" by simp
    with p have "n < MIN_DATE" by (rule py_int_short_below_cutoff)
    with ge show ?thesis by simp
  qed
  have skip: "date_filter_skips raw" if p: "py_int (take 8 raw) = Some n" and lt: "n < MIN_DATE"
  proof (cases "8 \<le> length raw")
    case True
    with p lt show ?thesis by (simp add: date_filter_long)
  next
    case False
    moreover from p have "raw \<noteq> []" by (auto simp: py_int_empty)
    ultimately show ?thesis by (simp add: date_filter_short)
  qed
  have empty: "\<not> date_filter_skips []" by (simp add: date_filter_skips_def)
  have ex1: "\<not> date_filter_skips (''20200101'' @ rest)"
    by (simp add: date_filter_skips_def MIN_DATE_def py_int_def strip_with_def int_isspace_def
        is_decimal_def digit_val_def)
  have ex2: "date_filter_skips (''20191231'' @ rest)"
    by (simp add: date_filter_skips_def MIN_DATE_def py_int_def strip_with_def int_isspace_def
        is_decimal_def digit_val_def)
  have rej: "parse_contribution_row L r = Inr None" if "date_filter_skips (row_get r ''receivedDt'')"
    using that by (simp add: parse_contribution_row_None_iff)
  have acc: "\<exists>c. parse_contribution_row L r = Inr (Some c)"
    if "\<not> date_filter_skips (row_get r ''receivedDt'')" and "row_get r ''contributionInfoId'' \<noteq> []"
  proof -
    from that have "parse_contribution_row L r \<noteq> Inr None"
      by (simp add: parse_contribution_row_None_iff)
    with parse_contribution_row_returns [of L r] show ?thesis by auto
  qed
  from pass skip empty ex1 ex2 rej acc show ?thesis
    by (simp add: MIN_DATE_def)
qed

theorem date_filter_cutoff_witness:
  "py_int (take 8 ''20210304T10:00'') = Some 20210304 \<and> MIN_DATE \<le> 20210304
   \<and> \<not> date_filter_skips ''20210304T10:00''
   \<and> py_int (take 8 ''20190304T10:00'') = Some 20190304 \<and> 20190304 < MIN_DATE
   \<and> date_filter_skips ''20190304T10:00''
   \<and> parse_contribution_row stub_lib
        [''receivedDt'' \<mapsto> ''20191231'', ''contributionInfoId'' \<mapsto> ''7''] = Inr None
   \<and> (\<exists>c. parse_contribution_row stub_lib
        [''receivedDt'' \<mapsto> ''20200101'', ''contributionInfoId'' \<mapsto> ''7''] = Inr (Some c))"
proof -
  have a: "py_int (take 8 ''20210304T10:00'') = Some 20210304"
    by (simp add: py_int_def strip_with_def int_isspace_def is_decimal_def digit_val_def)
  have b: "py_int (take 8 ''20190304T10:00'') = Some 20190304"
    by (simp add: py_int_def strip_with_def int_isspace_def is_decimal_def digit_val_def)
  have m: "MIN_DATE = 20200101" by (simp add: MIN_DATE_def)
  note t1 = date_filter_cutoff [of "''20210304T10:00''" 20210304 "[]"
      "[''receivedDt'' \<mapsto> ''20191231'', ''contributionInfoId'' \<mapsto> ''7'']" stub_lib]
  note t2 = date_filter_cutoff [of "''20190304T10:00''" 20190304 "[]"
      "[''receivedDt'' \<mapsto> ''20200101'', ''contributionInfoId'' \<mapsto> ''7'']" stub_lib]
  from a b m t1 t2 show ?thesis by (simp add: row_get_def)
qed

text \<open>
  C1, as amended. A received date of at least eight characters whose first eight \<open>int\<close>
  does not read passes the date filter. A received date that is not empty and shorter than
  eight characters is taken as 0 and skipped, numeric or not. In the three importers a row
  gives no record exactly when the filter skips it or its identifier is empty.
\<close>

theorem date_filter_unparsable:
  "(8 \<le> length raw \<and> py_int (take 8 raw) = None \<longrightarrow> \<not> date_filter_skips raw)
   \<and> (raw \<noteq> [] \<and> length raw < 8 \<longrightarrow> date_filter_skips raw)
   \<and> (parse_contribution_row L r = Inr None \<longleftrightarrow>
        date_filter_skips (row_get r ''receivedDt'') \<or> row_get r ''contributionInfoId'' = [])
   \<and> (parse_expenditure_row L r = Inr None \<longleftrightarrow>
        date_filter_skips (row_get r ''receivedDt'') \<or> row_get r ''expendInfoId'' = [])
   \<and> (parse_report_row L r = Inr None \<longleftrightarrow>
        date_filter_skips (row_get r ''receivedDt'') \<or> row_get r ''reportInfoIdent'' = [])"
proof -
  have "\<not> date_filter_skips raw" if "8 \<le> length raw" and "py_int (take 8 raw) = None"
    using that by (simp add: date_filter_long)
  moreover have "date_filter_skips raw" if "raw \<noteq> []" and "length raw < 8"
    using that by (rule date_filter_short)
  ultimately show ?thesis
    using parse_contribution_row_None_iff [of L r] parse_expenditure_row_None_iff [of L r]
      parse_report_row_None_iff [of L r]
    by blast
qed

theorem date_filter_unparsable_witness:
  "8 \<le> length ''2021-03-04'' \<and> py_int (take 8 ''2021-03-04'') = None
   \<and> \<not> date_filter_skips ''2021-03-04''
   \<and> ''3/4/21'' \<noteq> [] \<and> length ''3/4/21'' < 8
   \<and> date_filter_skips ''3/4/21''
   \<and> parse_report_row stub_lib [''receivedDt'' \<mapsto> ''3/4/21'', ''reportInfoIdent'' \<mapsto> ''9'']
       = Inr None"
proof -
  have a: "py_int (take 8 ''2021-03-04'') = None"
    by (simp add: py_int_def strip_with_def int_isspace_def is_decimal_def digit_val_def)
  note t = date_filter_unparsable [of "''2021-03-04''" stub_lib
      "[''receivedDt'' \<mapsto> ''3/4/21'', ''reportInfoIdent'' \<mapsto> ''9'']"]
    date_filter_unparsable [of "''3/4/21''" stub_lib
      "[''receivedDt'' \<mapsto> ''3/4/21'', ''reportInfoIdent'' \<mapsto> ''9'']"]
  from a t show ?thesis by (simp add: row_get_def)
qed

text \<open>
  C1 as stated fails: \<open>abc\<close> is not empty and \<open>int\<close> does not read it, yet the filter
  skips it and each importer drops the row.
\<close>

theorem short_date_rejected_counterexample:
  "''abc'' \<noteq> [] \<and> py_int (take 8 ''abc'') = None
   \<and> date_filter_skips ''abc''
   \<and> parse_contribution_row stub_lib
        [''receivedDt'' \<mapsto> ''abc'', ''contributionInfoId'' \<mapsto> ''7''] = Inr None
   \<and> parse_expenditure_row stub_lib
        [''receivedDt'' \<mapsto> ''abc'', ''expendInfoId'' \<mapsto> ''7''] = Inr None
   \<and> parse_report_row stub_lib
        [''receivedDt'' \<mapsto> ''abc'', ''reportInfoIdent'' \<mapsto> ''7''] = Inr None"
proof -
  have a: "py_int (take 8 ''abc'') = None"
    by (simp add: py_int_def strip_with_def int_isspace_def is_decimal_def digit_val_def)
  have b: "date_filter_skips ''abc''"
    by (simp add: date_filter_skips_def MIN_DATE_def)
  from a b show ?thesis
    by (simp add: parse_contribution_row_None_iff parse_expenditure_row_None_iff
        parse_report_row_None_iff row_get_def)
qed

lemma build_contributor_name_absent:
  "r ''contributorNameOrganization'' = None \<Longrightarrow> r ''contributorNameLast'' = None \<Longrightarrow>
   r ''contributorNameFirst'' = None \<Longrightarrow> build_contributor_name r = ''Unknown''"
  by (simp add: build_contributor_name_def build_name_def row_get_def py_strip_def strip_with_def)

text \<open>
  C3, as amended. A contribution row gives no record exactly when the date filter skips it
  or, checked after that, its identifier is missing or empty. A missing filer id, amount
  or contributor name does not reject the row: the record holds the empty string, the
  library's zero and \<open>Unknown\<close>. The parser raises on no row.
\<close>

theorem contribution_rejection:
  "(parse_contribution_row L r = Inr None \<longleftrightarrow>
      date_filter_skips (row_get r ''receivedDt'') \<or> row_get r ''contributionInfoId'' = [])
   \<and> (\<exists>v. parse_contribution_row L r = Inr v)
   \<and> (parse_contribution_row L r = Inr (Some c) \<longrightarrow>
        c_id c = row_get r ''contributionInfoId''
        \<and> c_filer_id c = row_get r ''filerIdent''
        \<and> c_amount c = parse_amount L (row_get r ''contributionAmount'')
        \<and> c_contributor_name c = build_contributor_name r)
   \<and> (r ''filerIdent'' = None \<longrightarrow> row_get r ''filerIdent'' = [])
   \<and> (r ''contributionAmount'' = None \<longrightarrow>
        parse_amount L (row_get r ''contributionAmount'') = float_zero L)
   \<and> (r ''contributorNameOrganization'' = None \<and> r ''contributorNameLast'' = None
        \<and> r ''contributorNameFirst'' = None \<longrightarrow> build_contributor_name r = ''Unknown'')"
proof -
  obtain d where d: "parse_date L (row_get r ''contributionDt'') = Inr d"
    using parse_date_returns by blast
  obtain rd where rd: "parse_date L (row_get r ''receivedDt'') = Inr rd"
    using parse_date_returns by blast
  have fields: "c_id c = row_get r ''contributionInfoId''
        \<and> c_filer_id c = row_get r ''filerIdent''
        \<and> c_amount c = parse_amount L (row_get r ''contributionAmount'')
        \<and> c_contributor_name c = build_contributor_name r"
    if "parse_contribution_row L r = Inr (Some c)"
    using that by (auto simp: parse_contribution_row_def Let_def bind_exc_def d rd split: if_splits)
  have amount: "parse_amount L (row_get r ''contributionAmount'') = float_zero L"
    if "r ''contributionAmount'' = None"
    using that by (simp add: row_get_def parse_amount_def)
  have fid: "row_get r ''filerIdent'' = []" if "r ''filerIdent'' = None"
    using that by (simp add: row_get_def)
  show ?thesis
    using parse_contribution_row_None_iff [of L r] parse_contribution_row_returns [of L r]
      fields amount fid build_contributor_name_absent [of r]
    by blast
qed

theorem contribution_rejection_witness:
  "parse_contribution_row stub_lib [''filerIdent'' \<mapsto> ''42'', ''contributionAmount'' \<mapsto> ''10'']
     = Inr None
   \<and> parse_contribution_row stub_lib [''contributionInfoId'' \<mapsto> ''C-1''] \<noteq> Inr None
   \<and> build_contributor_name [''contributionInfoId'' \<mapsto> ''C-1''] = ''Unknown''
   \<and> parse_amount stub_lib (row_get [''contributionInfoId'' \<mapsto> ''C-1''] ''contributionAmount'') = 0"
proof -
  note t1 = contribution_rejection [of stub_lib
      "[''filerIdent'' \<mapsto> ''42'', ''contributionAmount'' \<mapsto> ''10'']"]
  note t2 = contribution_rejection [of stub_lib "[''contributionInfoId'' \<mapsto> ''C-1'']"]
  have z: "float_zero stub_lib = 0" by (simp add: stub_lib_def)
  have f: "\<not> date_filter_skips []" by (simp add: date_filter_skips_def)
  from t1 t2 z f show ?thesis by (simp add: row_get_def)
qed

text \<open>
  C3 as stated fails: a row with an identifier and no filer id, amount or contributor name
  is accepted.
\<close>

theorem missing_required_fields_counterexample:
  "row_get [''contributionInfoId'' \<mapsto> ''C-1''] ''filerIdent'' = []
   \<and> row_get [''contributionInfoId'' \<mapsto> ''C-1''] ''contributionAmount'' = []
   \<and> row_get [''contributionInfoId'' \<mapsto> ''C-1''] ''contributorNameOrganization'' = []
   \<and> row_get [''contributionInfoId'' \<mapsto> ''C-1''] ''contributorNameLast'' = []
   \<and> row_get [''contributionInfoId'' \<mapsto> ''C-1''] ''contributorNameFirst'' = []
   \<and> parse_contribution_row stub_lib [''contributionInfoId'' \<mapsto> ''C-1'']
     = Inr (Some \<lparr> c_id = ''C-1'', c_filer_id = [], c_filer_name = [],
         c_contributor_name = ''Unknown'', c_contributor_type = [], c_contributor_city = [],
         c_contributor_state = [], c_contributor_employer = [], c_contributor_occupation = [],
         c_amount = 0, c_date = None, c_description = [], c_report_id = [],
         c_received_date = None \<rparr>)"
  by (simp add: parse_contribution_row_def Let_def bind_exc_def row_get_def date_filter_skips_def
      parse_date_def parse_amount_def stub_lib_def build_contributor_name_def build_name_def
      py_strip_def strip_with_def)


section \<open>Money amounts and report types\<close>

lemma remove_both:
  "remove_chr CHR ''$'' (remove_chr CHR '','' s) = filter (\<lambda>c. c \<noteq> CHR ''$'' \<and> c \<noteq> CHR '','') s"
  by (simp add: remove_chr_def conj_commute)

lemma remove_both_idem:
  "remove_chr CHR ''$'' (remove_chr CHR '','' (filter (\<lambda>c. c \<noteq> CHR ''$'' \<and> c \<noteq> CHR '','') s))
     = filter (\<lambda>c. c \<noteq> CHR ''$'' \<and> c \<noteq> CHR '','') s"
  by (simp add: remove_both)

lemma py_strip_Nil: "py_strip [] = []"
  by (simp add: py_strip_def strip_with_def)

text \<open>
  C6. Both money parsers give the same result on a string and on the string without its
  dollar signs and commas: \<open>$1,234.50\<close> is parsed as \<open>1234.50\<close> is, and both give
  what the library's \<open>float\<close> reads in \<open>1234.50\<close>.
\<close>

theorem parse_amount_ignores_decoration:
  "parse_amount L s = parse_amount L (filter (\<lambda>c. c \<noteq> CHR ''$'' \<and> c \<noteq> CHR '','') s)
   \<and> parse_amount_report L s
       = parse_amount_report L (filter (\<lambda>c. c \<noteq> CHR ''$'' \<and> c \<noteq> CHR '','') s)
   \<and> parse_amount L ''$1,234.50'' = parse_amount L ''1234.50''
   \<and> parse_amount_report L ''$1,234.50'' = parse_amount_report L ''1234.50''
   \<and> (float_str L ''1234.50'' = Some v \<longrightarrow>
        parse_amount L ''$1,234.50'' = v \<and> parse_amount_report L ''$1,234.50'' = Some v)"
proof -
  define clean where "clean = filter (\<lambda>c. c \<noteq> CHR ''$'' \<and> c \<noteq> CHR '','') s"
  have a: "parse_amount L s = parse_amount L clean"
  proof (cases "clean = []")
    case True
    then show ?thesis
      by (simp add: parse_amount_def remove_both py_strip_Nil flip: clean_def)
  next
    case False
    then have "s \<noteq> []" by (auto simp: clean_def)
    with False show ?thesis
      unfolding parse_amount_def clean_def remove_both_idem remove_both by simp
  qed
  have b: "parse_amount_report L s = parse_amount_report L clean"
  proof (cases "clean = []")
    case True
    then show ?thesis
      by (simp add: parse_amount_report_def remove_both py_strip_Nil flip: clean_def)
  next
    case False
    then have "s \<noteq> []" by (auto simp: clean_def)
    with False show ?thesis
      unfolding parse_amount_report_def clean_def remove_both_idem remove_both by simp
  qed
  have c: "py_strip (remove_chr CHR ''$'' (remove_chr CHR '','' ''$1,234.50'')) = ''1234.50''"
    by (simp add: remove_chr_def py_strip_def strip_with_def py_isspace_def)
  have d: "py_strip (remove_chr CHR ''$'' (remove_chr CHR '','' ''1234.50'')) = ''1234.50''"
    by (simp add: remove_chr_def py_strip_def strip_with_def py_isspace_def)
  have e: "parse_amount L ''$1,234.50'' = parse_amount L ''1234.50''"
    by (simp add: parse_amount_def c d)
  have f: "parse_amount_report L ''$1,234.50'' = parse_amount_report L ''1234.50''"
    by (simp add: parse_amount_report_def c d)
  have g: "parse_amount L ''$1,234.50'' = v \<and> parse_amount_report L ''$1,234.50'' = Some v"
    if "float_str L ''1234.50'' = Some v"
    using that by (simp add: parse_amount_def parse_amount_report_def c)
  from a b e f g show ?thesis unfolding clean_def by blast
qed

theorem parse_amount_ignores_decoration_witness:
  "parse_amount stub_lib ''$1,234'' = 1234
   \<and> parse_amount_report stub_lib ''$1,234'' = Some 1234
   \<and> parse_amount stub_lib ''$'' = 0
   \<and> parse_amount_report stub_lib ''$'' = None"
proof -
  have i: "py_int ''1234'' = Some 1234"
    by (simp add: py_int_def strip_with_def int_isspace_def is_decimal_def digit_val_def)
  have p: "parse_amount stub_lib ''1234'' = 1234" "parse_amount_report stub_lib ''1234'' = Some 1234"
    by (simp_all add: parse_amount_def parse_amount_report_def remove_chr_def py_strip_def
        strip_with_def py_isspace_def stub_lib_def i)
  have q: "parse_amount stub_lib [] = 0" "parse_amount_report stub_lib [] = None"
    by (simp_all add: parse_amount_def parse_amount_report_def stub_lib_def)
  note t1 = parse_amount_ignores_decoration [of stub_lib "''$1,234''"]
  note t2 = parse_amount_ignores_decoration [of stub_lib "''$''"]
  from t1 t2 p q show ?thesis by simp
qed

lemma report_type_columns:
  "map (\<lambda>i. ''reportTypeCd'' @ str_nat i) [1..<11] =
     [''reportTypeCd1'', ''reportTypeCd2'', ''reportTypeCd3'', ''reportTypeCd4'',
      ''reportTypeCd5'', ''reportTypeCd6'', ''reportTypeCd7'', ''reportTypeCd8'',
      ''reportTypeCd9'', ''reportTypeCd10'']"
  by code_simp

lemma report_type_values_columns:
  "report_type_values r =
     filter (\<lambda>rt. rt \<noteq> []) (map (\<lambda>k. py_strip (row_get r k))
       [''reportTypeCd1'', ''reportTypeCd2'', ''reportTypeCd3'', ''reportTypeCd4'',
        ''reportTypeCd5'', ''reportTypeCd6'', ''reportTypeCd7'', ''reportTypeCd8'',
        ''reportTypeCd9'', ''reportTypeCd10''])"
proof -
  have "map (\<lambda>i. py_strip (row_get r (''reportTypeCd'' @ str_nat i))) [1..<11]
      = map (\<lambda>k. py_strip (row_get r k)) (map (\<lambda>i. ''reportTypeCd'' @ str_nat i) [1..<11])"
    by (simp add: comp_def)
  then show ?thesis
    unfolding report_type_values_def report_type_columns by simp
qed

lemma row_get_trimmed: "row_get (map_option py_strip \<circ> r) k = py_strip (row_get r k)"
  by (cases "r k") (simp_all add: row_get_def py_strip_Nil)

lemma parse_report_row_type:
  assumes "parse_report_row L r = Inr (Some rep)"
  shows "r_report_type rep = report_type_of r"
proof -
  from parse_report_row_cases [of L r] obtain ps pe fd rd where
    "parse_date L (row_get r ''periodStartDt'') = Inr ps"
    "parse_date L (row_get r ''periodEndDt'') = Inr pe"
    "parse_date L (row_get r ''filedDt'') = Inr fd"
    "parse_date L (row_get r ''receivedDt'') = Inr rd" by blast
  with assms show ?thesis
    by (auto simp: parse_report_row_def Let_def bind_exc_def split: if_splits)
qed

text \<open>
  C9, as amended. The report type of a row is the specification's aggregation over the
  columns \<open>reportTypeCd1\<close> to \<open>reportTypeCd10\<close>, in that order, applied to the trimmed
  values: a value counts when it is not empty after trimming and is collected trimmed.
  When no column has such a value the report type is absent, and the row is rejected
  only by the date filter or for an empty identifier.
\<close>

theorem report_type_aggregation:
  "report_type_of r = report_type_spec (map_option py_strip \<circ> r)
   \<and> map (\<lambda>i. ''reportTypeCd'' @ str_nat i) [1..<11] =
       [''reportTypeCd1'', ''reportTypeCd2'', ''reportTypeCd3'', ''reportTypeCd4'',
        ''reportTypeCd5'', ''reportTypeCd6'', ''reportTypeCd7'', ''reportTypeCd8'',
        ''reportTypeCd9'', ''reportTypeCd10'']
   \<and> (parse_report_row L r = Inr (Some rep) \<longrightarrow> r_report_type rep = report_type_of r)
   \<and> ((\<forall>i \<in> {1..<11}. py_strip (row_get r (''reportTypeCd'' @ str_nat i)) = [])
        \<longrightarrow> report_type_of r = None)
   \<and> (parse_report_row L r = Inr None \<longleftrightarrow>
        date_filter_skips (row_get r ''receivedDt'') \<or> row_get r ''reportInfoIdent'' = [])
   \<and> (\<exists>v. parse_report_row L r = Inr v)"
proof -
  have a: "report_type_of r = report_type_spec (map_option py_strip \<circ> r)"
    by (simp add: report_type_of_def report_type_spec_def report_type_values_def row_get_trimmed)
  have b: "report_type_of r = None"
    if "\<forall>i \<in> {1..<11}. py_strip (row_get r (''reportTypeCd'' @ str_nat i)) = []"
  proof -
    from that have "report_type_values r = []"
      by (simp add: report_type_values_def filter_empty_conv)
    then show ?thesis by (simp add: report_type_of_def)
  qed
  from a b report_type_columns parse_report_row_type [of L r rep]
    parse_report_row_None_iff [of L r] parse_report_row_returns [of L r]
  show ?thesis by blast
qed

lemma report_type_spec_columns:
  "report_type_spec r =
     (let vs = filter (\<lambda>v. v \<noteq> []) (map (row_get r)
       [''reportTypeCd1'', ''reportTypeCd2'', ''reportTypeCd3'', ''reportTypeCd4'',
        ''reportTypeCd5'', ''reportTypeCd6'', ''reportTypeCd7'', ''reportTypeCd8'',
        ''reportTypeCd9'', ''reportTypeCd10''])
      in if vs \<noteq> [] then Some (py_join '', '' vs) else None)"
proof -
  have "map (\<lambda>i. row_get r (''reportTypeCd'' @ str_nat i)) [1..<11]
      = map (row_get r) (map (\<lambda>i. ''reportTypeCd'' @ str_nat i) [1..<11])"
    by (simp add: comp_def)
  then show ?thesis
    unfolding report_type_spec_def report_type_columns by simp
qed

theorem report_type_aggregation_witness:
  "report_type_spec (map_option py_strip \<circ> [''reportTypeCd2'' \<mapsto> ''SEMI'',
      ''reportTypeCd1'' \<mapsto> '' JAN '', ''reportTypeCd7'' \<mapsto> '' '']) = Some ''JAN, SEMI''
   \<and> report_type_of [''reportInfoIdent'' \<mapsto> ''9''] = None
   \<and> parse_report_row stub_lib [''reportInfoIdent'' \<mapsto> ''9''] \<noteq> Inr None"
proof -
  have s: "report_type_of
      [''reportTypeCd2'' \<mapsto> ''SEMI'', ''reportTypeCd1'' \<mapsto> '' JAN '', ''reportTypeCd7'' \<mapsto> '' '']
      = Some ''JAN, SEMI''"
    by (simp add: report_type_of_def report_type_values_columns row_get_def py_strip_def
        strip_with_def py_isspace_def)
  have e: "\<forall>i \<in> {1..<11}.
      py_strip (row_get [''reportInfoIdent'' \<mapsto> ''9''] (''reportTypeCd'' @ str_nat i)) = []"
    by (simp add: row_get_def py_strip_Nil)
  have f: "\<not> date_filter_skips []" by (simp add: date_filter_skips_def)
  note t1 = report_type_aggregation [of
      "[''reportTypeCd2'' \<mapsto> ''SEMI'', ''reportTypeCd1'' \<mapsto> '' JAN '', ''reportTypeCd7'' \<mapsto> '' '']"
      stub_lib, THEN conjunct1]
  note t2 = report_type_aggregation [of "[''reportInfoIdent'' \<mapsto> ''9'']" stub_lib]
  have a: "report_type_spec (map_option py_strip \<circ> [''reportTypeCd2'' \<mapsto> ''SEMI'',
      ''reportTypeCd1'' \<mapsto> '' JAN '', ''reportTypeCd7'' \<mapsto> '' '']) = Some ''JAN, SEMI''"
    by (simp only: t1 [symmetric] s)
  from t2 e have b: "report_type_of [''reportInfoIdent'' \<mapsto> ''9''] = None" by blast
  from t2 f have c: "parse_report_row stub_lib [''reportInfoIdent'' \<mapsto> ''9''] \<noteq> Inr None"
    by (simp add: row_get_def)
  from a b c show ?thesis by blast
qed

text \<open>
  C9 as stated fails: a value of one space is not empty, yet it is not collected, and a
  value with a space before it is collected without the space.
\<close>

theorem blank_report_type_counterexample:
  "row_get [''reportTypeCd1'' \<mapsto> '' '', ''reportTypeCd2'' \<mapsto> '' Q1''] ''reportTypeCd1'' \<noteq> []
   \<and> report_type_spec [''reportTypeCd1'' \<mapsto> '' '', ''reportTypeCd2'' \<mapsto> '' Q1'']
       = Some '' ,  Q1''
   \<and> report_type_of [''reportTypeCd1'' \<mapsto> '' '', ''reportTypeCd2'' \<mapsto> '' Q1''] = Some ''Q1''
   \<and> row_get [''reportTypeCd1'' \<mapsto> '' ''] ''reportTypeCd1'' \<noteq> []
   \<and> report_type_of [''reportTypeCd1'' \<mapsto> '' ''] = None"
  by (simp add: report_type_of_def report_type_values_columns report_type_spec_columns
      row_get_def py_strip_def strip_with_def py_isspace_def)


section \<open>Properties of the batch loader\<close>

lemma chunks_Nil: "chunks n [] = []"
  by (simp add: chunks.simps [of n "[]"])

lemma chunks_step: "0 < n \<Longrightarrow> xs \<noteq> [] \<Longrightarrow> chunks n xs = take n xs # chunks n (drop n xs)"
  by (simp add: chunks.simps [of n xs])

lemma chunks_single: "xs \<noteq> [] \<Longrightarrow> length xs \<le> n \<Longrightarrow> chunks n xs = [xs]"
proof -
  assume ne: "xs \<noteq> []" and le: "length xs \<le> n"
  then have pos: "0 < n" by (cases xs) auto
  from le have "drop n xs = []" by simp
  with ne pos le show ?thesis by (simp add: chunks_step [of n xs] chunks_Nil)
qed

lemma concat_chunks: "0 < n \<Longrightarrow> concat (chunks n xs) = xs"
proof (induction n xs rule: chunks.induct)
  case (1 n xs)
  show ?case
  proof (cases "xs = []")
    case True
    then show ?thesis by (simp add: chunks_Nil)
  next
    case False
    with "1.prems" "1.IH" have "concat (chunks n (drop n xs)) = drop n xs" by simp
    with False "1.prems" show ?thesis by (simp add: chunks_step [of n xs])
  qed
qed

lemma chunks_sizes: "0 < n \<Longrightarrow> c \<in> set (chunks n xs) \<Longrightarrow> c \<noteq> [] \<and> length c \<le> n"
proof (induction n xs rule: chunks.induct)
  case (1 n xs)
  show ?case
  proof (cases "xs = []")
    case True
    with "1.prems" show ?thesis by (simp add: chunks_Nil)
  next
    case False
    with "1.prems" have "c = take n xs \<or> c \<in> set (chunks n (drop n xs))"
      by (simp add: chunks_step [of n xs])
    then show ?thesis
    proof
      assume "c = take n xs"
      with False "1.prems" show ?thesis by simp
    next
      assume "c \<in> set (chunks n (drop n xs))"
      with False "1.prems" "1.IH" show ?thesis by simp
    qed
  qed
qed

lemma nth_chunks:
  "0 < n \<Longrightarrow> i < length (chunks n xs) \<Longrightarrow> chunks n xs ! i = take n (drop (i * n) xs)"
proof (induction n xs arbitrary: i rule: chunks.induct)
  case (1 n xs)
  from "1.prems" have ne: "xs \<noteq> []" by (auto simp: chunks_Nil)
  note st = chunks_step [of n xs, OF "1.prems"(1) ne]
  show ?case
  proof (cases i)
    case 0
    with st show ?thesis by simp
  next
    case (Suc j)
    with st "1.prems" have "j < length (chunks n (drop n xs))" by simp
    with ne "1.prems" "1.IH" have "chunks n (drop n xs) ! j = take n (drop (j * n) (drop n xs))"
      by simp
    with st Suc show ?thesis by (simp add: add.commute)
  qed
qed

lemma mini_batches_stub:
  "foldl (insert_mini_batch (stub_upsert accepts)) (calls, k) bs
     = (calls @ bs, k + sum_list (map length (filter accepts bs)))"
  by (induction bs arbitrary: calls k) (simp_all add: insert_mini_batch.simps stub_upsert_def)

lemma ceil_div_step:
  fixes l n :: nat
  assumes "0 < n" and "0 < l"
  shows "(l + n - 1) div n = Suc ((l - n + n - 1) div n)"
proof -
  from assms have "n \<le> l + n - 1" by simp
  with assms(1) have "(l + n - 1) div n = Suc ((l + n - 1 - n) div n)" by (rule le_div_geq)
  also have "l + n - 1 - n = l - 1" by simp
  also have "(l - 1) div n = (l - n + n - 1) div n"
  proof (cases "n \<le> l")
    case True
    then show ?thesis by simp
  next
    case False
    with assms show ?thesis by simp
  qed
  finally show ?thesis .
qed

lemma length_chunks: "0 < n \<Longrightarrow> length (chunks n xs) = (length xs + n - 1) div n"
proof (induction n xs rule: chunks.induct)
  case (1 n xs)
  show ?case
  proof (cases "xs = []")
    case True
    with "1.prems" show ?thesis by (simp add: chunks_Nil)
  next
    case False
    with "1.prems" "1.IH" have "length (chunks n (drop n xs)) = (length xs - n + n - 1) div n"
      by simp
    moreover from False "1.prems" have "(length xs + n - 1) div n = Suc ((length xs - n + n - 1) div n)"
      by (intro ceil_div_step) simp_all
    moreover from False "1.prems" have "length (chunks n xs) = Suc (length (chunks n (drop n xs)))"
      by (simp add: chunks_step [of n xs])
    ultimately show ?thesis by presburger
  qed
qed

lemma insert_batch_stub:
  "insert_batch (stub_upsert accepts) m (calls, k) batch =
     (if accepts batch then (calls @ [batch], k + length batch)
      else (calls @ batch # chunks m batch,
            k + sum_list (map length (filter accepts (chunks m batch)))))"
  by (simp add: insert_batch.simps stub_upsert_def mini_batches_stub)

lemma five_records:
  "insert_batches (stub_upsert at_most_two) 5 2 ([], 0) [r1, r2, r3, r4, r5]
     = ([[r1, r2, r3, r4, r5], [r1, r2], [r3, r4], [r5]], 5)"
proof -
  have a: "chunks 5 [r1, r2, r3, r4, r5] = [[r1, r2, r3, r4, r5]]"
    by (rule chunks_single) simp_all
  have b: "chunks 2 [r1, r2, r3, r4, r5] = [[r1, r2], [r3, r4], [r5]]"
    by (simp add: chunks_step chunks_Nil)
  show ?thesis
    by (simp add: insert_batches_def a insert_batch_stub b at_most_two_def)
qed

text \<open>
  C2, as amended. When the upsert of a whole batch fails, the loader goes on from the
  store as the failure left it and upserts the sub-batches one after the other, each a
  slice of the fallback size (the last one what remains), counting a sub-batch that
  succeeds and skipping one that fails. Against a store that records its calls and
  rejects a batch by a test on the batch, the calls are the batch and then every
  sub-batch, and the count grows by the sizes of the accepted ones. With five records, a
  batch size of 5, a fallback size of 2 and a store that accepts at most two records,
  there are four calls, of 5, 2, 2 and 1 records; none is dropped and the count is 5.
\<close>

theorem batch_degradation:
  "(upsert st batch = (False, st') \<longrightarrow>
      insert_batch upsert m (st, k) batch
        = foldl (insert_mini_batch upsert) (st', k) (chunks m batch))
   \<and> (upsert st batch = (True, st') \<longrightarrow>
        insert_batch upsert m (st, k) batch = (st', k + length batch)
        \<and> insert_mini_batch upsert (st, k) batch = (st', k + length batch))
   \<and> (upsert st batch = (False, st') \<longrightarrow> insert_mini_batch upsert (st, k) batch = (st', k))
   \<and> (0 < m \<longrightarrow>
        concat (chunks m batch) = batch
        \<and> length (chunks m batch) = (length batch + m - 1) div m
        \<and> (\<forall>i < length (chunks m batch). chunks m batch ! i = take m (drop (i * m) batch)))
   \<and> (\<not> accepts batch \<longrightarrow>
        insert_batch (stub_upsert accepts) m (calls, k) batch
          = (calls @ batch # chunks m batch,
             k + sum_list (map length (filter accepts (chunks m batch)))))
   \<and> insert_batches (stub_upsert at_most_two) 5 2 ([], 0) [r1, r2, r3, r4, r5]
       = ([[r1, r2, r3, r4, r5], [r1, r2], [r3, r4], [r5]], 5)"
proof -
  have a: "insert_batch upsert m (st, k) batch
        = foldl (insert_mini_batch upsert) (st', k) (chunks m batch)"
    if "upsert st batch = (False, st')"
    using that by (simp add: insert_batch.simps)
  have b: "insert_batch upsert m (st, k) batch = (st', k + length batch)
        \<and> insert_mini_batch upsert (st, k) batch = (st', k + length batch)"
    if "upsert st batch = (True, st')"
    using that by (simp add: insert_batch.simps insert_mini_batch.simps)
  have c: "insert_mini_batch upsert (st, k) batch = (st', k)"
    if "upsert st batch = (False, st')"
    using that by (simp add: insert_mini_batch.simps)
  have d: "concat (chunks m batch) = batch
        \<and> length (chunks m batch) = (length batch + m - 1) div m
        \<and> (\<forall>i < length (chunks m batch). chunks m batch ! i = take m (drop (i * m) batch))"
    if "0 < m"
    using that by (simp add: concat_chunks length_chunks nth_chunks)
  have e: "insert_batch (stub_upsert accepts) m (calls, k) batch
          = (calls @ batch # chunks m batch,
             k + sum_list (map length (filter accepts (chunks m batch))))"
    if "\<not> accepts batch"
    using that by (simp add: insert_batch_stub)
  from a b c d e five_records [of r1 r2 r3 r4 r5] show ?thesis by blast
qed

theorem batch_degradation_witness:
  "\<not> at_most_two [1, 2, 3 :: nat]
   \<and> insert_batch (stub_upsert at_most_two) 2 ([], 0) [1, 2, 3 :: nat]
       = ([[1, 2, 3], [1, 2], [3]], 3)
   \<and> insert_batch (stub_upsert at_most_two) 3 ([], 0) [1, 2, 3 :: nat] = ([[1, 2, 3], [1, 2, 3]], 0)
   \<and> concat (chunks 2 [1, 2, 3 :: nat]) = [1, 2, 3]"
proof -
  have n: "\<not> at_most_two [1, 2, 3 :: nat]" by (simp add: at_most_two_def)
  have p: "0 < (2 :: nat)" by simp
  have c2: "chunks 2 [1, 2, 3 :: nat] = [[1, 2], [3]]" by (simp add: chunks_step chunks_Nil)
  have c3: "chunks 3 [1, 2, 3 :: nat] = [[1, 2, 3]]" by (rule chunks_single) simp_all
  note t2 = batch_degradation [of "stub_upsert at_most_two" "[]" "[1, 2, 3 :: nat]" "[[1, 2, 3]]" 2 0
      at_most_two "[]"]
  note t3 = batch_degradation [of "stub_upsert at_most_two" "[]" "[1, 2, 3 :: nat]" "[[1, 2, 3]]" 3 0
      at_most_two "[]"]
  note e2 = t2 [THEN conjunct2, THEN conjunct2, THEN conjunct2, THEN conjunct2, THEN conjunct1,
      THEN mp, OF n]
  note e3 = t3 [THEN conjunct2, THEN conjunct2, THEN conjunct2, THEN conjunct2, THEN conjunct1,
      THEN mp, OF n]
  note d2 = t2 [THEN conjunct2, THEN conjunct2, THEN conjunct2, THEN conjunct1, THEN mp, OF p,
      THEN conjunct1]
  have r2: "insert_batch (stub_upsert at_most_two) 2 ([], 0) [1, 2, 3 :: nat]
       = ([[1, 2, 3], [1, 2], [3]], 3)"
    unfolding e2 c2 by (simp add: at_most_two_def)
  have r3: "insert_batch (stub_upsert at_most_two) 3 ([], 0) [1, 2, 3 :: nat]
       = ([[1, 2, 3], [1, 2, 3]], 0)"
    unfolding e3 c3 by (simp add: at_most_two_def)
  from n r2 r3 d2 show ?thesis by blast
qed

text \<open>
  C2 as stated fails: the five records make four upsert calls, not three, and the fifth
  record is loaded in a sub-batch of its own.
\<close>

theorem five_records_counterexample:
  "fst (insert_batches (stub_upsert at_most_two) 5 2 ([], 0) [1, 2, 3, 4, 5 :: nat])
     = [[1, 2, 3, 4, 5], [1, 2], [3, 4], [5]]
   \<and> length (fst (insert_batches (stub_upsert at_most_two) 5 2 ([], 0) [1, 2, 3, 4, 5 :: nat])) \<noteq> 3
   \<and> snd (insert_batches (stub_upsert at_most_two) 5 2 ([], 0) [1, 2, 3, 4, 5 :: nat]) = 5"
  by (simp add: five_records)


section \<open>Properties of the filer importer and of the other readers\<close>

lemma parse_filer_row_id: "f_id (parse_filer_row r) = row_get r ''filerIdent''"
  by (simp add: parse_filer_row_def)

lemma parse_filer_row_name: "f_name (parse_filer_row r) = filer_name_of r"
  by (simp add: parse_filer_row_def)

lemma filer_step_cases:
  assumes "filer_step (fs, seen) r = (fs', seen')"
  shows "(fs' = fs \<or>
          (fs' = fs @ [parse_filer_row r] \<and> row_get r ''filerIdent'' \<notin> seen
           \<and> row_get r ''filerIdent'' \<noteq> [] \<and> f_name (parse_filer_row r) \<noteq> []))
         \<and> seen \<subseteq> seen' \<and> seen' \<subseteq> insert (row_get r ''filerIdent'') seen
         \<and> (row_get r ''filerIdent'' = [] \<or> row_get r ''filerIdent'' \<in> seen')"
  using assms by (auto simp: Let_def split: if_splits)

lemma filer_step_invariant:
  assumes step: "filer_step (fs, seen) r = (fs', seen')"
    and ids: "f_id ` set fs \<subseteq> seen"
    and dist: "distinct (map f_id fs)"
    and names: "\<forall>f \<in> set fs. f_name f \<noteq> [] \<and> f_id f \<noteq> []"
  shows "f_id ` set fs' \<subseteq> seen' \<and> distinct (map f_id fs')
         \<and> (\<forall>f \<in> set fs'. f_name f \<noteq> [] \<and> f_id f \<noteq> [])"
proof -
  note c = filer_step_cases [OF step]
  from c have sub: "seen \<subseteq> seen'" by blast
  from c consider (same) "fs' = fs"
    | (added) "fs' = fs @ [parse_filer_row r]" "row_get r ''filerIdent'' \<notin> seen"
        "row_get r ''filerIdent'' \<noteq> []" "f_name (parse_filer_row r) \<noteq> []"
    by blast
  then show ?thesis
  proof cases
    case same
    with ids dist names sub show ?thesis by blast
  next
    case added
    from c added(3) have "row_get r ''filerIdent'' \<in> seen'" by blast
    with ids sub added(1) have a: "f_id ` set fs' \<subseteq> seen'"
      by (auto simp: parse_filer_row_id)
    from ids added(2) have "row_get r ''filerIdent'' \<notin> f_id ` set fs" by blast
    with dist added(1) have b: "distinct (map f_id fs')"
      by (simp add: parse_filer_row_id)
    from names added have d: "\<forall>f \<in> set fs'. f_name f \<noteq> [] \<and> f_id f \<noteq> []"
      by (auto simp: parse_filer_row_id)
    from a b d show ?thesis by blast
  qed
qed

lemma filers_invariant:
  "foldl filer_step (fs, seen) rs = (fs', seen') \<Longrightarrow>
   f_id ` set fs \<subseteq> seen \<Longrightarrow> distinct (map f_id fs) \<Longrightarrow>
   \<forall>f \<in> set fs. f_name f \<noteq> [] \<and> f_id f \<noteq> [] \<Longrightarrow>
   f_id ` set fs' \<subseteq> seen' \<and> distinct (map f_id fs')
   \<and> (\<forall>f \<in> set fs'. f_name f \<noteq> [] \<and> f_id f \<noteq> [])"
proof (induction rs arbitrary: fs seen)
  case Nil
  then show ?case by simp
next
  case (Cons r rs)
  obtain fs1 seen1 where s: "filer_step (fs, seen) r = (fs1, seen1)"
    by (cases "filer_step (fs, seen) r") blast
  from Cons.prems(1) s have run: "foldl filer_step (fs1, seen1) rs = (fs', seen')" by simp
  from filer_step_invariant [OF s Cons.prems(2) Cons.prems(3) Cons.prems(4)]
  have "f_id ` set fs1 \<subseteq> seen1" "distinct (map f_id fs1)"
    "\<forall>f \<in> set fs1. f_name f \<noteq> [] \<and> f_id f \<noteq> []" by blast+
  with run show ?case by (rule Cons.IH)
qed

lemma filers_origin:
  "foldl filer_step (fs, seen) rs = (fs', seen') \<Longrightarrow>
   seen' \<subseteq> seen \<union> (\<lambda>r. row_get r ''filerIdent'') ` set rs
   \<and> (\<forall>f \<in> set fs'. f \<in> set fs \<or> (f_id f \<notin> seen \<and> (\<exists>r \<in> set rs. f = parse_filer_row r)))"
proof (induction rs arbitrary: fs seen)
  case Nil
  then show ?case by simp
next
  case (Cons r rs)
  obtain fs1 seen1 where s: "filer_step (fs, seen) r = (fs1, seen1)"
    by (cases "filer_step (fs, seen) r") blast
  note c = filer_step_cases [OF s]
  from Cons.prems s have run: "foldl filer_step (fs1, seen1) rs = (fs', seen')" by simp
  note ih = Cons.IH [OF run]
  from ih c have a: "seen' \<subseteq> seen \<union> (\<lambda>r. row_get r ''filerIdent'') ` set (r # rs)"
    by auto
  have b: "f \<in> set fs \<or> (f_id f \<notin> seen \<and> (\<exists>r' \<in> set (r # rs). f = parse_filer_row r'))"
    if "f \<in> set fs'" for f
  proof -
    from ih that have "f \<in> set fs1 \<or> (f_id f \<notin> seen1 \<and> (\<exists>r' \<in> set rs. f = parse_filer_row r'))"
      by blast
    then show ?thesis
    proof
      assume "f \<in> set fs1"
      with c show ?thesis by (auto simp: parse_filer_row_id)
    next
      assume "f_id f \<notin> seen1 \<and> (\<exists>r' \<in> set rs. f = parse_filer_row r')"
      with c show ?thesis by auto
    qed
  qed
  from a b show ?case by blast
qed

lemma read_filers_invariant:
  "distinct (map f_id (read_filers rs))
   \<and> (\<forall>f \<in> set (read_filers rs). f_name f \<noteq> [] \<and> f_id f \<noteq> [])"
proof -
  obtain fs' seen' where s: "foldl filer_step ([], {}) rs = (fs', seen')"
    by (cases "foldl filer_step ([], {}) rs") blast
  from filers_invariant [OF s] have "distinct (map f_id fs')
      \<and> (\<forall>f \<in> set fs'. f_name f \<noteq> [] \<and> f_id f \<noteq> [])" by simp
  with s show ?thesis by (simp add: read_filers_def)
qed

lemma read_filers_origin:
  "f \<in> set (read_filers rs) \<Longrightarrow> \<exists>r \<in> set rs. f = parse_filer_row r"
proof -
  assume f: "f \<in> set (read_filers rs)"
  obtain fs' seen' where s: "foldl filer_step ([], {}) rs = (fs', seen')"
    by (cases "foldl filer_step ([], {}) rs") blast
  with f have "f \<in> set fs'" by (simp add: read_filers_def)
  with filers_origin [OF s] show ?thesis by auto
qed

lemma parse_rows_all:
  assumes "\<And>r. \<exists>v. parse r = Inr v"
  shows "parse_rows parse acc k rs =
     Inr (acc @ List.map_filter (\<lambda>r. projr (parse r)) rs,
          k + length (filter (\<lambda>r. projr (parse r) = None) rs))"
proof (induction rs arbitrary: acc k)
  case Nil
  show ?case by (simp add: List.map_filter_simps)
next
  case (Cons r rs)
  from assms obtain v where v: "parse r = Inr v" by blast
  show ?case
  proof (cases v)
    case None
    with v Cons.IH [of acc "k + 1"] show ?thesis by (simp add: List.map_filter_simps)
  next
    case (Some x)
    with v Cons.IH [of "acc @ [x]" k] show ?thesis by (simp add: List.map_filter_simps)
  qed
qed

lemma first_row_wins:
  assumes first: "\<forall>r' \<in> set pre. row_get r' ''filerIdent'' \<noteq> row_get r ''filerIdent''"
    and f: "f \<in> set (read_filers (pre @ r # post))"
    and x: "f_id f = row_get r ''filerIdent''"
  shows "f = parse_filer_row r"
proof -
  define ident where "ident = (\<lambda>r :: row. row_get r ''filerIdent'')"
  obtain fs1 seen1 where s1: "foldl filer_step ([], {}) pre = (fs1, seen1)"
    by (cases "foldl filer_step ([], {}) pre") blast
  obtain fs2 seen2 where s2: "filer_step (fs1, seen1) r = (fs2, seen2)"
    by (cases "filer_step (fs1, seen1) r") blast
  obtain fs3 seen3 where s3: "foldl filer_step (fs2, seen2) post = (fs3, seen3)"
    by (cases "foldl filer_step (fs2, seen2) post") blast
  from s1 s2 s3 have all: "read_filers (pre @ r # post) = fs3"
    by (simp add: read_filers_def)
  from read_filers_invariant [of "pre @ r # post"] f have "f_id f \<noteq> []"
    by simp
  with x have ne: "ident r \<noteq> []" by (simp add: ident_def)
  from first have first': "\<forall>r' \<in> set pre. ident r' \<noteq> ident r" by (simp add: ident_def)
  from x have x': "f_id f = ident r" by (simp add: ident_def)
  from filers_origin [OF s1]
  have o1: "seen1 \<subseteq> ident ` set pre"
    and o2: "\<forall>g \<in> set fs1. \<exists>r' \<in> set pre. g = parse_filer_row r'"
    by (simp_all add: ident_def)
  have seen1: "ident r \<notin> seen1"
  proof
    assume "ident r \<in> seen1"
    with o1 have "ident r \<in> ident ` set pre" by (rule subsetD)
    then obtain r' where eq: "ident r = ident r'" and mem: "r' \<in> set pre" by (rule imageE)
    from first' mem have "ident r' \<noteq> ident r" by (rule bspec)
    with eq show False by simp
  qed
  have fs1: "f_id g \<noteq> ident r" if "g \<in> set fs1" for g
  proof -
    from o2 that obtain r' where "r' \<in> set pre" and "g = parse_filer_row r'" by blast
    with first' show ?thesis by (simp add: parse_filer_row_id ident_def)
  qed
  from filer_step_cases [OF s2]
  have c1: "fs2 = fs1 \<or> fs2 = fs1 @ [parse_filer_row r]"
    and c2: "ident r = [] \<or> ident r \<in> seen2"
    by (simp_all add: ident_def) blast
  from c2 ne have seen2: "ident r \<in> seen2" by simp
  from f all have f3: "f \<in> set fs3" by simp
  from filers_origin [OF s3] f3 have "f \<in> set fs2 \<or> f_id f \<notin> seen2" by blast
  with x' seen2 have f2: "f \<in> set fs2" by simp
  from c1 show ?thesis
  proof
    assume "fs2 = fs1"
    with f2 fs1 x' show ?thesis by blast
  next
    assume "fs2 = fs1 @ [parse_filer_row r]"
    with f2 have "f \<in> set fs1 \<or> f = parse_filer_row r" by auto
    with fs1 x' show ?thesis by blast
  qed
qed

text \<open>
  C7. The filers of one run have distinct identifiers, and each is the record of a row of
  the input. When two rows bear the same identifier, a filer with that identifier is the
  record of the first row that bears it. The contribution, expenditure and report readers
  keep the record of every row they accept, in order: a row read twice gives its record
  twice.
\<close>

theorem filer_first_wins:
  "distinct (map f_id (read_filers rs))
   \<and> (\<forall>f \<in> set (read_filers rs). \<exists>r \<in> set rs. f = parse_filer_row r)
   \<and> (rs = pre @ r1 # mid @ r2 # post
        \<and> row_get r2 ''filerIdent'' = row_get r1 ''filerIdent''
        \<and> (\<forall>r' \<in> set pre. row_get r' ''filerIdent'' \<noteq> row_get r1 ''filerIdent'')
        \<longrightarrow> (\<forall>f \<in> set (read_filers rs).
               f_id f = row_get r1 ''filerIdent'' \<longrightarrow> f = parse_filer_row r1))
   \<and> parse_rows (parse_contribution_row L) [] 0 rs =
       Inr (List.map_filter (\<lambda>r. projr (parse_contribution_row L r)) rs,
            length (filter (\<lambda>r. projr (parse_contribution_row L r) = None) rs))
   \<and> parse_rows (parse_expenditure_row L) [] 0 rs =
       Inr (List.map_filter (\<lambda>r. projr (parse_expenditure_row L r)) rs,
            length (filter (\<lambda>r. projr (parse_expenditure_row L r) = None) rs))
   \<and> parse_rows (parse_report_row L) [] 0 rs =
       Inr (List.map_filter (\<lambda>r. projr (parse_report_row L r)) rs,
            length (filter (\<lambda>r. projr (parse_report_row L r) = None) rs))
   \<and> (parse_contribution_row L r1 = Inr (Some c) \<longrightarrow>
        parse_rows (parse_contribution_row L) [] 0 [r1, r1] = Inr ([c, c], 0))
   \<and> (parse_expenditure_row L r1 = Inr (Some e) \<longrightarrow>
        parse_rows (parse_expenditure_row L) [] 0 [r1, r1] = Inr ([e, e], 0))
   \<and> (parse_report_row L r1 = Inr (Some p) \<longrightarrow>
        parse_rows (parse_report_row L) [] 0 [r1, r1] = Inr ([p, p], 0))"
proof -
  have a: "distinct (map f_id (read_filers rs))"
    using read_filers_invariant [of rs] by blast
  have b: "\<forall>f \<in> set (read_filers rs). \<exists>r \<in> set rs. f = parse_filer_row r"
    using read_filers_origin [of _ rs] by blast
  have w: "\<forall>f \<in> set (read_filers rs). f_id f = row_get r1 ''filerIdent'' \<longrightarrow> f = parse_filer_row r1"
    if "rs = pre @ r1 # mid @ r2 # post"
      and "\<forall>r' \<in> set pre. row_get r' ''filerIdent'' \<noteq> row_get r1 ''filerIdent''"
    using that first_row_wins [of pre r1 _ "mid @ r2 # post"] by blast
  have c1: "parse_rows (parse_contribution_row L) [] 0 rs =
       Inr (List.map_filter (\<lambda>r. projr (parse_contribution_row L r)) rs,
            length (filter (\<lambda>r. projr (parse_contribution_row L r) = None) rs))"
    using parse_rows_all [of "parse_contribution_row L" "[]" 0 rs]
      parse_contribution_row_returns [of L] by simp
  have c2: "parse_rows (parse_expenditure_row L) [] 0 rs =
       Inr (List.map_filter (\<lambda>r. projr (parse_expenditure_row L r)) rs,
            length (filter (\<lambda>r. projr (parse_expenditure_row L r) = None) rs))"
    using parse_rows_all [of "parse_expenditure_row L" "[]" 0 rs]
      parse_expenditure_row_returns [of L] by simp
  have c3: "parse_rows (parse_report_row L) [] 0 rs =
       Inr (List.map_filter (\<lambda>r. projr (parse_report_row L r)) rs,
            length (filter (\<lambda>r. projr (parse_report_row L r) = None) rs))"
    using parse_rows_all [of "parse_report_row L" "[]" 0 rs]
      parse_report_row_returns [of L] by simp
  have d1: "parse_rows (parse_contribution_row L) [] 0 [r1, r1] = Inr ([c, c], 0)"
    if "parse_contribution_row L r1 = Inr (Some c)"
    using that by simp
  have d2: "parse_rows (parse_expenditure_row L) [] 0 [r1, r1] = Inr ([e, e], 0)"
    if "parse_expenditure_row L r1 = Inr (Some e)"
    using that by simp
  have d3: "parse_rows (parse_report_row L) [] 0 [r1, r1] = Inr ([p, p], 0)"
    if "parse_report_row L r1 = Inr (Some p)"
    using that by simp
  from w have w': "rs = pre @ r1 # mid @ r2 # post
        \<and> row_get r2 ''filerIdent'' = row_get r1 ''filerIdent''
        \<and> (\<forall>r' \<in> set pre. row_get r' ''filerIdent'' \<noteq> row_get r1 ''filerIdent'')
        \<longrightarrow> (\<forall>f \<in> set (read_filers rs).
               f_id f = row_get r1 ''filerIdent'' \<longrightarrow> f = parse_filer_row r1)"
    by blast
  from d1 have d1': "parse_contribution_row L r1 = Inr (Some c) \<longrightarrow>
        parse_rows (parse_contribution_row L) [] 0 [r1, r1] = Inr ([c, c], 0)" by blast
  from d2 have d2': "parse_expenditure_row L r1 = Inr (Some e) \<longrightarrow>
        parse_rows (parse_expenditure_row L) [] 0 [r1, r1] = Inr ([e, e], 0)" by blast
  from d3 have d3': "parse_report_row L r1 = Inr (Some p) \<longrightarrow>
        parse_rows (parse_report_row L) [] 0 [r1, r1] = Inr ([p, p], 0)" by blast
  note parts = conjI [OF d2' d3']
  note parts = conjI [OF d1' parts]
  note parts = conjI [OF c3 parts]
  note parts = conjI [OF c2 parts]
  note parts = conjI [OF c1 parts]
  note parts = conjI [OF w' parts]
  note parts = conjI [OF b parts]
  note parts = conjI [OF a parts]
  show ?thesis by (rule parts)
qed

theorem filer_first_wins_witness:
  "set (read_filers ([] @ [''filerIdent'' \<mapsto> ''1'', ''filerName'' \<mapsto> ''A''] # []
          @ [''filerIdent'' \<mapsto> ''1'', ''filerName'' \<mapsto> ''B''] # []))
     \<subseteq> {parse_filer_row [''filerIdent'' \<mapsto> ''1'', ''filerName'' \<mapsto> ''A'']}
   \<and> (\<exists>c. parse_rows (parse_contribution_row stub_lib) [] 0
          [[''contributionInfoId'' \<mapsto> ''7''], [''contributionInfoId'' \<mapsto> ''7'']] = Inr ([c, c], 0))"
proof -
  define rA :: row where "rA = [''filerIdent'' \<mapsto> ''1'', ''filerName'' \<mapsto> ''A'']"
  define rB :: row where "rB = [''filerIdent'' \<mapsto> ''1'', ''filerName'' \<mapsto> ''B'']"
  define rC :: row where "rC = [''contributionInfoId'' \<mapsto> ''7'']"
  have idA: "row_get rA ''filerIdent'' = ''1''" and idB: "row_get rB ''filerIdent'' = ''1''"
    by (simp_all add: rA_def rB_def row_get_def)
  note t = filer_first_wins [of "[] @ rA # [] @ rB # []" "[]" rA "[]" rB "[]" stub_lib]
  note origin = t [THEN conjunct2, THEN conjunct1]
  have hyp: "[] @ rA # [] @ rB # [] = [] @ rA # [] @ rB # []
      \<and> row_get rB ''filerIdent'' = row_get rA ''filerIdent''
      \<and> (\<forall>r' \<in> set []. row_get r' ''filerIdent'' \<noteq> row_get rA ''filerIdent'')"
    by (simp add: idA idB)
  note wins = t [THEN conjunct2, THEN conjunct2, THEN conjunct1, THEN mp, OF hyp]
  have a: "set (read_filers ([] @ rA # [] @ rB # [])) \<subseteq> {parse_filer_row rA}"
  proof
    fix f assume f: "f \<in> set (read_filers ([] @ rA # [] @ rB # []))"
    with origin obtain r where "r \<in> set ([] @ rA # [] @ rB # [])" and "f = parse_filer_row r"
      by blast
    then have "f_id f = row_get rA ''filerIdent''"
      by (auto simp: parse_filer_row_id idA idB)
    with wins f show "f \<in> {parse_filer_row rA}" by simp
  qed
  have "\<not> date_filter_skips []" by (simp add: date_filter_skips_def)
  then have "parse_contribution_row stub_lib rC \<noteq> Inr None"
    by (simp add: parse_contribution_row_None_iff rC_def row_get_def)
  with parse_contribution_row_returns [of stub_lib rC]
  obtain c where c: "parse_contribution_row stub_lib rC = Inr (Some c)" by auto
  note u = filer_first_wins [of "[]" "[]" rC "[]" rC "[]" stub_lib c]
  note v = u [THEN conjunct2, THEN conjunct2, THEN conjunct2, THEN conjunct2, THEN conjunct2,
      THEN conjunct2, THEN conjunct1, THEN mp, OF c]
  then have b: "\<exists>c. parse_rows (parse_contribution_row stub_lib) [] 0 [rC, rC] = Inr ([c, c], 0)" ..
  from a b show ?thesis unfolding rA_def rB_def rC_def by (rule conjI)
qed

text \<open>
  C10. When the first row that bears an identifier derives an empty name, no record of
  the output has that identifier, whatever rows follow: the identifier is in the set of
  seen identifiers before the name is tested, so the first row is dropped for its name
  and every later one as a duplicate.
\<close>

theorem empty_name_blocks_identity:
  assumes "\<forall>r' \<in> set pre. row_get r' ''filerIdent'' \<noteq> row_get r ''filerIdent''"
    and "f_name (parse_filer_row r) = []"
  shows "row_get r ''filerIdent'' \<notin> f_id ` set (read_filers (pre @ r # post))"
proof
  assume "row_get r ''filerIdent'' \<in> f_id ` set (read_filers (pre @ r # post))"
  then obtain f where x: "row_get r ''filerIdent'' = f_id f"
    and f: "f \<in> set (read_filers (pre @ r # post))" by (rule imageE)
  from assms(1) f x [symmetric] have "f = parse_filer_row r" by (rule first_row_wins)
  with assms(2) have "f_name f = []" by simp
  moreover from read_filers_invariant [of "pre @ r # post"] f have "f_name f \<noteq> []" by simp
  ultimately show False by simp
qed

theorem empty_name_blocks_identity_witness:
  "f_name (parse_filer_row [''filerIdent'' \<mapsto> ''1'']) = []
   \<and> f_name (parse_filer_row [''filerIdent'' \<mapsto> ''1'', ''filerName'' \<mapsto> ''B'']) = ''B''
   \<and> row_get [''filerIdent'' \<mapsto> ''1'', ''filerName'' \<mapsto> ''B''] ''filerIdent''
       = row_get [''filerIdent'' \<mapsto> ''1''] ''filerIdent''
   \<and> row_get [''filerIdent'' \<mapsto> ''1''] ''filerIdent''
       \<notin> f_id ` set (read_filers ([] @ [''filerIdent'' \<mapsto> ''1'']
             # [[''filerIdent'' \<mapsto> ''1'', ''filerName'' \<mapsto> ''B'']]))"
proof -
  have a: "f_name (parse_filer_row [''filerIdent'' \<mapsto> ''1'']) = []"
    by (simp add: parse_filer_row_def filer_name_of_def row_get_def)
  have b: "f_name (parse_filer_row [''filerIdent'' \<mapsto> ''1'', ''filerName'' \<mapsto> ''B'']) = ''B''"
    by (simp add: parse_filer_row_def filer_name_of_def row_get_def)
  have c: "row_get [''filerIdent'' \<mapsto> ''1'', ''filerName'' \<mapsto> ''B''] ''filerIdent''
       = row_get [''filerIdent'' \<mapsto> ''1''] ''filerIdent''"
    by (simp add: row_get_def)
  have d: "\<forall>r' \<in> set []. row_get r' ''filerIdent'' \<noteq> row_get [''filerIdent'' \<mapsto> ''1''] ''filerIdent''"
    by simp
  note t = empty_name_blocks_identity [OF d a,
      of "[[''filerIdent'' \<mapsto> ''1'', ''filerName'' \<mapsto> ''B'']]"]
  from a b c t show ?thesis by (intro conjI)
qed

end
